theory Spec2Isabelle
  imports Complex_Main "HOL-Library.Sublist"
begin

section \<open>JavaScript values and their renderings\<close>

text \<open>
  Rows come back from the record store as JSON objects. A value is one of the JSON
  shapes; numbers are the integer-valued ones (every amount and balance of the data set
  is an integer), strings are byte strings in UTF-8, and an object keeps its entries in
  insertion order, which is the order \<^verbatim>\<open>Object.entries\<close> walks for column names.
  A property read that finds nothing is JavaScript's \<^verbatim>\<open>undefined\<close>, here \<open>None\<close>.
\<close>

datatype jsval =
    JNull
  | JBool bool
  | JNum int
  | JStr string
  | JArr "jsval list"
  | JObj "(string \<times> jsval) list"

type_synonym row = "(string \<times> jsval) list"

definition get_prop :: "row \<Rightarrow> string \<Rightarrow> jsval option" where
  "get_prop r k = map_of r k"

definition dq :: string where
  "dq = [CHR 0x22]"

definition bs :: string where
  "bs = [CHR 0x5C]"

definition nl :: string where
  "nl = [CHR 0x0A]"

fun join :: "string \<Rightarrow> string list \<Rightarrow> string" where
  "join sep [] = []"
| "join sep [x] = x"
| "join sep (x # y # ys) = x @ sep @ join sep (y # ys)"

definition digit_char :: "nat \<Rightarrow> char" where
  "digit_char d = ''0123456789abcdef'' ! d"

fun decimal_digits :: "nat \<Rightarrow> string" where
  "decimal_digits n =
     (if n < 10 then [digit_char n] else decimal_digits (n div 10) @ [digit_char (n mod 10)])"

declare decimal_digits.simps [simp del]

text \<open>\<^verbatim>\<open>Number.prototype.toString\<close> on an integer-valued number.\<close>

definition number_to_string :: "int \<Rightarrow> string" where
  "number_to_string i =
     (if 0 \<le> i then decimal_digits (nat i) else CHR ''-'' # decimal_digits (nat (- i)))"

text \<open>
  \<^verbatim>\<open>String(v)\<close>, which a template literal \<^verbatim>\<open>${v}\<close> applies. Inside an array,
  \<^verbatim>\<open>null\<close> and \<^verbatim>\<open>undefined\<close> elements render empty (\<^verbatim>\<open>Array.prototype.join\<close>).
\<close>

fun to_string :: "jsval \<Rightarrow> string" where
  "to_string JNull = ''null''"
| "to_string (JBool b) = (if b then ''true'' else ''false'')"
| "to_string (JNum n) = number_to_string n"
| "to_string (JStr s) = s"
| "to_string (JArr xs) = join '','' (map (\<lambda>x. if x = JNull then [] else to_string x) xs)"
| "to_string (JObj kvs) = ''[object Object]''"

definition template :: "jsval option \<Rightarrow> string" where
  "template v = (case v of None \<Rightarrow> ''undefined'' | Some x \<Rightarrow> to_string x)"

text \<open>The element conversion of \<^verbatim>\<open>Array.prototype.join\<close>.\<close>

definition join_elem :: "jsval option \<Rightarrow> string" where
  "join_elem v = (case v of None \<Rightarrow> [] | Some JNull \<Rightarrow> [] | Some x \<Rightarrow> to_string x)"

text \<open>\<^verbatim>\<open>JSON.stringify\<close> without indentation.\<close>

definition json_escape_char :: "char \<Rightarrow> string" where
  "json_escape_char c =
     (if c = CHR 0x22 then bs @ dq
      else if c = CHR 0x5C then bs @ bs
      else if c = CHR 0x08 then bs @ ''b''
      else if c = CHR 0x0C then bs @ ''f''
      else if c = CHR 0x0A then bs @ ''n''
      else if c = CHR 0x0D then bs @ ''r''
      else if c = CHR 0x09 then bs @ ''t''
      else if (of_char c :: nat) < 32
        then bs @ ''u00'' @ [digit_char (of_char c div 16), digit_char (of_char c mod 16)]
      else [c])"

definition json_quote :: "string \<Rightarrow> string" where
  "json_quote s = dq @ concat (map json_escape_char s) @ dq"

fun json_stringify :: "jsval \<Rightarrow> string" where
  "json_stringify JNull = ''null''"
| "json_stringify (JBool b) = (if b then ''true'' else ''false'')"
| "json_stringify (JNum n) = number_to_string n"
| "json_stringify (JStr s) = json_quote s"
| "json_stringify (JArr xs) = ''['' @ join '','' (map json_stringify xs) @ '']''"
| "json_stringify (JObj kvs) =
     ''{'' @ join '','' (map (\<lambda>kv. json_quote (fst kv) @ '':'' @ json_stringify (snd kv)) kvs) @ ''}''"

text \<open>\<^verbatim>\<open>toUpperCase\<close> on the ASCII letters, which is all a table name holds.\<close>

definition upper_char :: "char \<Rightarrow> char" where
  "upper_char c =
     (case map_of (zip ''abcdefghijklmnopqrstuvwxyz'' ''ABCDEFGHIJKLMNOPQRSTUVWXYZ'') c of
        None \<Rightarrow> c | Some u \<Rightarrow> u)"

definition toUpperCase :: "string \<Rightarrow> string" where
  "toUpperCase s = map upper_char s"

section \<open>Errors\<close>

text \<open>
  What a rejected promise or a thrown exception carries: the error object of the record
  store, of the model API, or of the file system, passed on unchanged by every caller,
  or a \<^verbatim>\<open>TypeError\<close> or \<^verbatim>\<open>RangeError\<close> of the language itself.
\<close>

datatype error =
    StoreError string
  | ApiError string
  | FsError string
  | TypeError string
  | RangeError string

section \<open>Serializer\<close>

text \<open>
  \<^verbatim>\<open>serialize(table, row)\<close> of the indexer. Its one effect is the read
  \<^verbatim>\<open>from('accounts').select('name, type').eq('id', row.account_id).single()\<close>,
  which is a parameter here: the store's answer for the account id of the row, either
  the error or the account object.
\<close>

type_synonym account_lookup = "jsval option \<Rightarrow> error + row"

definition serialize :: "account_lookup \<Rightarrow> string \<Rightarrow> row \<Rightarrow> error + string" where
  "serialize accounts_single table r =
     (if table = ''account_snapshots'' then
        (case accounts_single (get_prop r ''account_id'') of
           Inl acctErr \<Rightarrow> Inl acctErr
         | Inr acct \<Rightarrow> Inr (
             ''Account Balance | account_name='' @ dq @ template (get_prop acct ''name'') @ dq @ '' | '' @
             ''account_type='' @ dq @ template (get_prop acct ''type'') @ dq @
             '' | as_of='' @ dq @ template (get_prop r ''snapshot_date'') @ dq @ '' | '' @
             ''cash_balance='' @ template (get_prop r ''balance'')))
      else if table = ''monthly_expense_snapshots'' then
        Inr (''Monthly Expense Snapshot | '' @
             ''period='' @ dq @ template (get_prop r ''period_start'') @ '' to '' @
               template (get_prop r ''period_end'') @ dq @ '' | '' @
             ''total_expense='' @ template (get_prop r ''total_expense''))
      else if table = ''financial_kb'' then
        Inr (''Formula | title='' @ dq @ template (get_prop r ''title'') @ dq @
             '' | expression='' @ dq @ template (get_prop r ''content'') @ dq)
      else
        Inr (toUpperCase table @ '' | '' @
             join '' | ''
               (map (\<lambda>kv. fst kv @ ''='' @ json_stringify (snd kv))
                  (filter (\<lambda>kv. fst kv \<notin> set [''metadata'', ''updated_at'']) r))))"


section \<open>Embedder and Indexer\<close>

text \<open>
  A Document as the indexer sends it to \<^verbatim>\<open>documents\<close>. The embedding is the float
  vector of the model, each component a rational.
\<close>

type_synonym vector = "rat list"

record document =
  user_id :: "jsval option"
  source_table :: string
  source_id :: "jsval option"
  content :: string
  embedding :: vector

text \<open>
  What the indexer consumes from outside: the rows of a table
  (\<^verbatim>\<open>from(table).select('*')\<close>), the account lookup of the serializer, the error, if
  any, with which the store rejects the upsert of a document, and the embeddings
  endpoint as the OpenAI client reaches it: the outcome of attempt \<open>a\<close> of the
  \<open>n\<close>-th call of \<^verbatim>\<open>openai.embeddings.create\<close> on a text, and which failures the
  client treats as transient.
\<close>

record indexer_env =
  select_all :: "string \<Rightarrow> error + row list"
  accounts_single :: account_lookup
  embeddings_request :: "nat \<Rightarrow> nat \<Rightarrow> string \<Rightarrow> error + vector"
  should_retry :: "error \<Rightarrow> bool"
  upsert_error :: "document \<Rightarrow> error option"

text \<open>
  \<^verbatim>\<open>const openai = new OpenAI()\<close> sets no \<^verbatim>\<open>maxRetries\<close>, so the client keeps its
  default of two retries: an attempt that fails with a transient error is made again
  while retries remain, and the call ends with the vector of the first attempt that
  succeeds or with the error of the last attempt made. The waiting between attempts is
  real time and is not part of the model. \<open>embeddings_attempts\<close> counts the attempts of
  a call.
\<close>

definition MAX_RETRIES :: nat where
  "MAX_RETRIES = 2"

fun request_with_retries :: "(nat \<Rightarrow> error + vector) \<Rightarrow> (error \<Rightarrow> bool) \<Rightarrow> nat \<Rightarrow> nat \<Rightarrow> error + vector" where
  "request_with_retries attempt retry 0 a = attempt a"
| "request_with_retries attempt retry (Suc left) a =
     (case attempt a of
        Inr v \<Rightarrow> Inr v
      | Inl e \<Rightarrow> if retry e then request_with_retries attempt retry left (Suc a) else Inl e)"

fun attempts_made :: "(nat \<Rightarrow> error + vector) \<Rightarrow> (error \<Rightarrow> bool) \<Rightarrow> nat \<Rightarrow> nat \<Rightarrow> nat" where
  "attempts_made attempt retry 0 a = Suc a"
| "attempts_made attempt retry (Suc left) a =
     (case attempt a of
        Inr v \<Rightarrow> Suc a
      | Inl e \<Rightarrow> if retry e then attempts_made attempt retry left (Suc a) else Suc a)"

definition embeddings_create :: "indexer_env \<Rightarrow> nat \<Rightarrow> string \<Rightarrow> error + vector" where
  "embeddings_create env n text =
     request_with_retries (\<lambda>a. embeddings_request env n a text) (should_retry env) MAX_RETRIES 0"

definition embeddings_attempts :: "indexer_env \<Rightarrow> nat \<Rightarrow> string \<Rightarrow> nat" where
  "embeddings_attempts env n text =
     attempts_made (\<lambda>a. embeddings_request env n a text) (should_retry env) MAX_RETRIES 0"

text \<open>
  What the indexer changes: the \<^verbatim>\<open>documents\<close> table, unique on
  \<^verbatim>\<open>(source_table, source_id)\<close>, and the number of calls of
  \<^verbatim>\<open>openai.embeddings.create\<close> awaited so far.
\<close>

record world =
  documents :: "document list"
  api_calls :: nat

definition doc_key :: "document \<Rightarrow> string \<times> jsval option" where
  "doc_key d = (source_table d, source_id d)"

text \<open>
  \<^verbatim>\<open>upsert(doc, { onConflict: ['source_table', 'source_id'] })\<close>: the row with the same
  key is replaced where it stands, and a new row is added when there is none. Keys are
  compared as the values sent; the rows of the indexed tables carry their primary key
  \<^verbatim>\<open>id\<close>.
\<close>

fun upsert :: "document \<Rightarrow> document list \<Rightarrow> document list" where
  "upsert d [] = [d]"
| "upsert d (x # xs) = (if doc_key x = doc_key d then d # xs else x # upsert d xs)"

definition makeEmbedding :: "indexer_env \<Rightarrow> string \<Rightarrow> world \<Rightarrow> (error + vector) \<times> world" where
  "makeEmbedding env text w =
     (embeddings_create env (api_calls w) text, w\<lparr>api_calls := Suc (api_calls w)\<rparr>)"

text \<open>The body of the \<^verbatim>\<open>for (const row of rows)\<close> loop of \<^verbatim>\<open>embedTable\<close>.\<close>

definition embedRow :: "indexer_env \<Rightarrow> string \<Rightarrow> row \<Rightarrow> world \<Rightarrow> world \<times> (error + unit)" where
  "embedRow env table r w =
     (case serialize (accounts_single env) table r of
        Inl e \<Rightarrow> (w, Inl e)
      | Inr txt \<Rightarrow>
          (case makeEmbedding env txt w of
             (Inl e, w1) \<Rightarrow> (w1, Inl e)
           | (Inr emb, w1) \<Rightarrow>
               (let d = \<lparr>user_id = get_prop r ''user_id'', source_table = table,
                         source_id = get_prop r ''id'', content = txt,
                         embedding = emb\<rparr>
                in case upsert_error env d of
                     Some upsertErr \<Rightarrow> (w1, Inl upsertErr)
                   | None \<Rightarrow> (w1\<lparr>documents := upsert d (documents w1)\<rparr>, Inr ()))))"

fun embedRows :: "indexer_env \<Rightarrow> string \<Rightarrow> row list \<Rightarrow> world \<Rightarrow> world \<times> (error + unit)" where
  "embedRows env table [] w = (w, Inr ())"
| "embedRows env table (r # rs) w =
     (case embedRow env table r w of
        (w1, Inl e) \<Rightarrow> (w1, Inl e)
      | (w1, Inr _) \<Rightarrow> embedRows env table rs w1)"

definition embedTable :: "indexer_env \<Rightarrow> string \<Rightarrow> world \<Rightarrow> world \<times> (error + unit)" where
  "embedTable env table w =
     (case select_all env table of
        Inl e \<Rightarrow> (w, Inl e)
      | Inr rows \<Rightarrow> embedRows env table rows w)"

definition TABLES_TO_EMBED :: "string list" where
  "TABLES_TO_EMBED =
     [''profiles'', ''accounts'', ''categories'', ''transactions'', ''budgets'', ''customers'',
      ''invoices'', ''vendors'', ''bills'', ''account_snapshots'', ''monthly_expense_snapshots'',
      ''financial_kb'']"

text \<open>The \<^verbatim>\<open>for (const table of TABLES_TO_EMBED)\<close> loop of \<^verbatim>\<open>run\<close>, over any table list.\<close>

fun embedTables :: "indexer_env \<Rightarrow> string list \<Rightarrow> world \<Rightarrow> world \<times> (error + unit)" where
  "embedTables env [] w = (w, Inr ())"
| "embedTables env (t # ts) w =
     (case embedTable env t w of
        (w1, Inl e) \<Rightarrow> (w1, Inl e)
      | (w1, Inr _) \<Rightarrow> embedTables env ts w1)"

definition run :: "indexer_env \<Rightarrow> world \<Rightarrow> world \<times> (error + unit)" where
  "run env w = embedTables env TABLES_TO_EMBED w"

section \<open>HistoryStore\<close>

text \<open>
  A chat turn \<^verbatim>\<open>{ role, content }\<close>. The history file \<^verbatim>\<open>chat_history.json\<close> is
  absent (\<^verbatim>\<open>readFileSync\<close> throws), holds text that \<^verbatim>\<open>JSON.parse\<close> rejects, or
  holds JSON. \<^verbatim>\<open>JSON.parse\<close> gives back what \<^verbatim>\<open>JSON.stringify\<close> wrote, so the
  file is kept as the parsed value: the persisted state, which is one object keyed by
  user id with an array of turns under each key, or an array whose elements are
  \<^verbatim>\<open>null\<close> or arrays of turns, or \<^verbatim>\<open>null\<close>, a number or a boolean. A file that
  is one JSON string, and values that are not arrays of turns, are outside the model.
  The order in which \<^verbatim>\<open>JSON.stringify\<close> writes the keys of the object is not
  tracked.
\<close>

record message =
  role :: string
  msg_content :: string

type_synonym history_state = "(string \<times> message list) list"

datatype history_file =
    Missing
  | Unparsable
  | Stored history_state
  | StoredArray "message list option list"
  | StoredNull
  | StoredNumber int
  | StoredBoolean bool

text \<open>
  The file system as \<^verbatim>\<open>loadHistory\<close> and \<^verbatim>\<open>saveHistory\<close> see it: the history
  file, and the error with which \<^verbatim>\<open>writeFileSync\<close> fails, if it does.
\<close>

record file_system =
  history :: history_file
  write_error :: "error option"

definition HISTORY_LIMIT :: nat where
  "HISTORY_LIMIT = 10"

text \<open>\<^verbatim>\<open>xs.slice(-n)\<close> for \<open>n > 0\<close>: the last \<open>n\<close> elements, all of them when there are fewer.\<close>

definition slice_last :: "nat \<Rightarrow> 'a list \<Rightarrow> 'a list" where
  "slice_last n xs = drop (length xs - n) xs"

text \<open>
  \<^verbatim>\<open>all[userId] = v\<close> on an object: an own property keeps its place and a new one
  comes last. The key \<^verbatim>\<open>__proto__\<close> is the exception: where the object has no own
  property of that name the assignment runs the setter of \<^verbatim>\<open>Object.prototype\<close>,
  which changes the prototype and adds no property, so \<^verbatim>\<open>JSON.stringify\<close> writes
  the object as it was.
\<close>

fun update_prop :: "string \<Rightarrow> 'a \<Rightarrow> (string \<times> 'a) list \<Rightarrow> (string \<times> 'a) list" where
  "update_prop k v [] = [(k, v)]"
| "update_prop k v (p # ps) = (if fst p = k then (k, v) # ps else p # update_prop k v ps)"

definition set_prop :: "string \<Rightarrow> 'a \<Rightarrow> (string \<times> 'a) list \<Rightarrow> (string \<times> 'a) list" where
  "set_prop k v ps =
     (if k = ''__proto__'' \<and> map_of ps k = None then ps else update_prop k v ps)"

text \<open>
  The array indices among the property keys: the decimal numerals without leading
  zero of the numbers below \<open>2\<^sup>3\<^sup>2 - 1\<close>.
\<close>

definition decimal_value :: "string \<Rightarrow> nat" where
  "decimal_value s = foldl (\<lambda>acc c. 10 * acc + (of_char c - 48)) 0 s"

definition array_index :: "string \<Rightarrow> nat option" where
  "array_index s =
     (if s \<noteq> [] \<and> list_all (\<lambda>c. c \<in> set ''0123456789'') s \<and> (s = ''0'' \<or> hd s \<noteq> CHR ''0'') \<and>
         decimal_value s < 4294967295
      then Some (decimal_value s) else None)"

text \<open>
  \<^verbatim>\<open>all[i] = v\<close> on an array: the element is replaced, or the array grows to hold it;
  the holes this leaves are written as \<^verbatim>\<open>null\<close>.
\<close>

definition set_index :: "nat \<Rightarrow> 'a \<Rightarrow> 'a option list \<Rightarrow> 'a option list" where
  "set_index i v xs =
     (if i < length xs then xs[i := Some v] else xs @ replicate (i - length xs) None @ [Some v])"

text \<open>
  \<^verbatim>\<open>all[userId]?.slice(-HISTORY_LIMIT) ?? []\<close> inside the \<^verbatim>\<open>try\<close>: every failure,
  and every value that is absent, \<^verbatim>\<open>null\<close> or has no \<^verbatim>\<open>slice\<close>, gives the empty
  history.
\<close>

definition loadHistory :: "string \<Rightarrow> file_system \<Rightarrow> message list" where
  "loadHistory userId fs =
     (case history fs of
        Stored all \<Rightarrow>
          (case map_of all userId of
             Some turns \<Rightarrow> slice_last HISTORY_LIMIT turns
           | None \<Rightarrow> [])
      | StoredArray xs \<Rightarrow>
          (case array_index userId of
             Some i \<Rightarrow>
               (if i < length xs
                then (case xs ! i of Some turns \<Rightarrow> slice_last HISTORY_LIMIT turns | None \<Rightarrow> [])
                else [])
           | None \<Rightarrow> [])
      | _ \<Rightarrow> [])"

definition writeFileSync :: "history_file \<Rightarrow> file_system \<Rightarrow> error + file_system" where
  "writeFileSync all fs =
     (case write_error fs of
        Some e \<Rightarrow> Inl e
      | None \<Rightarrow> Inr (fs\<lparr>history := all\<rparr>))"

text \<open>
  \<^verbatim>\<open>all[userId] = v\<close> on the parsed value, outside any \<^verbatim>\<open>try\<close>. On \<^verbatim>\<open>null\<close>, and
  in a module (strict code) on a number or a boolean, it throws a \<^verbatim>\<open>TypeError\<close>,
  except that on a number or boolean the key \<^verbatim>\<open>__proto__\<close> runs the setter, which
  does nothing. On an array the key \<^verbatim>\<open>length\<close> sets the length to the number the
  value converts to: the empty array gives 0, an array of turns gives \<^verbatim>\<open>NaN\<close> and a
  \<^verbatim>\<open>RangeError\<close>; another key that is no index leaves the elements as they are.
\<close>

definition assign_prop :: "string \<Rightarrow> message list \<Rightarrow> history_file \<Rightarrow> error + history_file" where
  "assign_prop userId v all =
     (case all of
        Stored ps \<Rightarrow> Inr (Stored (set_prop userId v ps))
      | StoredArray xs \<Rightarrow>
          (case array_index userId of
             Some i \<Rightarrow> Inr (StoredArray (set_index i v xs))
           | None \<Rightarrow>
               if userId = ''length''
               then (if v = [] then Inr (StoredArray []) else Inl (RangeError ''Invalid array length''))
               else Inr (StoredArray xs))
      | StoredNumber n \<Rightarrow>
          if userId = ''__proto__'' then Inr (StoredNumber n)
          else Inl (TypeError ''Cannot create property'')
      | StoredBoolean b \<Rightarrow>
          if userId = ''__proto__'' then Inr (StoredBoolean b)
          else Inl (TypeError ''Cannot create property'')
      | StoredNull \<Rightarrow> Inl (TypeError ''Cannot set properties of null'')
      | _ \<Rightarrow> Inr (Stored (set_prop userId v [])))"

text \<open>
  \<^verbatim>\<open>saveHistory\<close>: \<^verbatim>\<open>all\<close> starts as \<^verbatim>\<open>{}\<close> and stays so when the read or the
  parse throws.
\<close>

definition saveHistory :: "string \<Rightarrow> message list \<Rightarrow> file_system \<Rightarrow> error + file_system" where
  "saveHistory userId turns fs =
     (let all = (case history fs of Missing \<Rightarrow> Stored [] | Unparsable \<Rightarrow> Stored [] | parsed \<Rightarrow> parsed)
      in case assign_prop userId (slice_last HISTORY_LIMIT turns) all of
           Inl e \<Rightarrow> Inl e
         | Inr all' \<Rightarrow> writeFileSync all' fs)"

text \<open>The history persisted for one scope: what the stored object holds under its key.\<close>

definition persisted :: "file_system \<Rightarrow> string \<Rightarrow> message list option" where
  "persisted fs userId = (case history fs of Stored all \<Rightarrow> map_of all userId | _ \<Rightarrow> None)"

section \<open>ContextAssembler and Orchestrator\<close>

text \<open>
  What the chatbot consumes from outside: the user id of the environment, the rows of
  \<^verbatim>\<open>financial_kb\<close>, the embeddings API, the \<^verbatim>\<open>match_documents\<close> RPC with its four
  arguments, and the chat completion with its messages, temperature and token bound,
  which answers with the text of the first choice.
\<close>

record bot_env =
  USER_ID :: string
  financial_kb_select :: "error + row list"
  embed :: "string \<Rightarrow> error + vector"
  match_documents :: "string \<Rightarrow> vector \<Rightarrow> rat \<Rightarrow> nat \<Rightarrow> error + row list"
  chat_completions :: "message list \<Rightarrow> rat \<Rightarrow> nat \<Rightarrow> error + string"

definition kb_line :: "row \<Rightarrow> string" where
  "kb_line d = ''**'' @ template (get_prop d ''title'') @ ''**: '' @ template (get_prop d ''content'')"

definition row_separator :: string where
  "row_separator = nl @ ''---'' @ nl"

definition fetchContext :: "bot_env \<Rightarrow> string \<Rightarrow> nat \<Rightarrow> error + string" where
  "fetchContext env question count =
     (case financial_kb_select env of
        Inl defErr \<Rightarrow> Inl defErr
      | Inr defs \<Rightarrow>
          (let kbText = join nl (map kb_line defs) in
           case embed env question of
             Inl e \<Rightarrow> Inl e
           | Inr qvec \<Rightarrow>
               (case match_documents env (USER_ID env) qvec 0 count of
                  Inl rowsErr \<Rightarrow> Inl rowsErr
                | Inr rows \<Rightarrow>
                    (let dataText = join row_separator (map (\<lambda>r. join_elem (get_prop r ''content'')) rows)
                     in Inr (join nl [''--- FINANCIAL FORMULAS ---'', kbText, [],
                                      ''--- USER DATA ROWS ---'', dataText])))))"

text \<open>
  \<^verbatim>\<open>String.prototype.trim\<close>: the white space and line terminators of ECMAScript, each
  in its UTF-8 bytes, are removed from both ends.
\<close>

definition white_space :: "string list" where
  "white_space =
     [[CHR 0x09], [CHR 0x0A], [CHR 0x0B], [CHR 0x0C], [CHR 0x0D], [CHR 0x20],
      [CHR 0xC2, CHR 0xA0], [CHR 0xE1, CHR 0x9A, CHR 0x80],
      [CHR 0xE2, CHR 0x80, CHR 0x80], [CHR 0xE2, CHR 0x80, CHR 0x81],
      [CHR 0xE2, CHR 0x80, CHR 0x82], [CHR 0xE2, CHR 0x80, CHR 0x83],
      [CHR 0xE2, CHR 0x80, CHR 0x84], [CHR 0xE2, CHR 0x80, CHR 0x85],
      [CHR 0xE2, CHR 0x80, CHR 0x86], [CHR 0xE2, CHR 0x80, CHR 0x87],
      [CHR 0xE2, CHR 0x80, CHR 0x88], [CHR 0xE2, CHR 0x80, CHR 0x89],
      [CHR 0xE2, CHR 0x80, CHR 0x8A], [CHR 0xE2, CHR 0x80, CHR 0xA8],
      [CHR 0xE2, CHR 0x80, CHR 0xA9], [CHR 0xE2, CHR 0x80, CHR 0xAF],
      [CHR 0xE2, CHR 0x81, CHR 0x9F], [CHR 0xE3, CHR 0x80, CHR 0x80],
      [CHR 0xEF, CHR 0xBB, CHR 0xBF]]"

function strip_start :: "string list \<Rightarrow> string \<Rightarrow> string" where
  "strip_start ws s =
     (case find (\<lambda>w. w \<noteq> [] \<and> take (length w) s = w) ws of
        None \<Rightarrow> s
      | Some w \<Rightarrow> strip_start ws (drop (length w) s))"
  by pat_completeness auto
termination
proof (relation "measure (\<lambda>(ws, s). length s)")
  show "wf (measure (\<lambda>(ws, s). length s))" by simp
next
  fix ws :: "string list" and s w :: string
  assume "find (\<lambda>w. w \<noteq> [] \<and> take (length w) s = w) ws = Some w"
  then have "w \<noteq> []" and "take (length w) s = w"
    by (auto simp: find_Some_iff)
  then have "s \<noteq> []" by auto
  with \<open>w \<noteq> []\<close> show "((ws, drop (length w) s), (ws, s)) \<in> measure (\<lambda>(ws, s). length s)"
    by simp
qed

declare strip_start.simps [simp del]

definition trim :: "string \<Rightarrow> string" where
  "trim s = rev (strip_start (map rev white_space) (rev (strip_start white_space s)))"

definition rsquo :: string where
  "rsquo = [CHR 0xE2, CHR 0x80, CHR 0x99]"

definition REFUSAL :: string where
  "REFUSAL = ''I'' @ rsquo @
     ''m a financial assistant and can only provide answers based on the financial data available to me.''"

definition policyPrompt :: string where
  "policyPrompt = join '' ''
     [''You are a senior financial analyst assistant, expert in accounting.'',
      ''For **financial** questions, you may ONLY use the supplied context.'',
      ''If information is missing, respond exactly:'',
      dq @ REFUSAL @ dq,
      ''For **meta** questions about your previous answers (e.g. '' @ dq @ ''why did you '' @
        [CHR 0xE2, CHR 0x80, CHR 0xA6] @ dq @ ''),'',
      ''you may explain your reasoning even if that reasoning isn'' @ rsquo @ ''t in the context.'',
      ''- Always cite which context rows or formulas you used when giving numbers.'']"

definition build_messages :: "message list \<Rightarrow> string \<Rightarrow> string \<Rightarrow> message list" where
  "build_messages hist context question =
     hist @
     [\<lparr>role = ''system'', msg_content = policyPrompt\<rparr>,
      \<lparr>role = ''system'', msg_content = context\<rparr>,
      \<lparr>role = ''user'', msg_content = question\<rparr>]"

text \<open>
  \<^verbatim>\<open>answer(question)\<close>: the result the caller awaits, and the file system it leaves.
  Every failure is the rejection of the promise with the error of the failing call.
\<close>

definition answer :: "bot_env \<Rightarrow> string \<Rightarrow> file_system \<Rightarrow> (error + string) \<times> file_system" where
  "answer env question fs =
     (case fetchContext env question 50 of
        Inl e \<Rightarrow> (Inl e, fs)
      | Inr context \<Rightarrow>
          (let hist = loadHistory (USER_ID env) fs in
           case chat_completions env (build_messages hist context question) 0 700 of
             Inl e \<Rightarrow> (Inl e, fs)
           | Inr reply \<Rightarrow>
               (let assistantReply = trim reply in
                case saveHistory (USER_ID env)
                       (hist @ [\<lparr>role = ''user'', msg_content = question\<rparr>,
                                \<lparr>role = ''assistant'', msg_content = assistantReply\<rparr>]) fs of
                  Inl e \<Rightarrow> (Inl e, fs)
                | Inr fs' \<Rightarrow> (Inr assistantReply, fs'))))"

section \<open>The documents of an indexing run\<close>

text \<open>
  Used by the proofs only. When the embeddings API answers a text the same at every
  call, the documents a run upserts do not depend on the world it starts from: they are
  the documents of the rows, table by table, up to the first row that fails.
\<close>

definition mk_document :: "string \<Rightarrow> row \<Rightarrow> string \<Rightarrow> vector \<Rightarrow> document" where
  "mk_document table r txt emb =
     \<lparr>user_id = get_prop r ''user_id'', source_table = table, source_id = get_prop r ''id'',
      content = txt, embedding = emb\<rparr>"

definition row_document :: "indexer_env \<Rightarrow> string \<Rightarrow> row \<Rightarrow> document option" where
  "row_document env table r =
     (case serialize (accounts_single env) table r of
        Inl e \<Rightarrow> None
      | Inr txt \<Rightarrow>
          (case embeddings_create env 0 txt of
             Inl e \<Rightarrow> None
           | Inr emb \<Rightarrow>
               (case upsert_error env (mk_document table r txt emb) of
                  Some e \<Rightarrow> None
                | None \<Rightarrow> Some (mk_document table r txt emb))))"

fun rows_documents :: "indexer_env \<Rightarrow> string \<Rightarrow> row list \<Rightarrow> document list \<times> bool" where
  "rows_documents env table [] = ([], True)"
| "rows_documents env table (r # rs) =
     (case row_document env table r of
        None \<Rightarrow> ([], False)
      | Some d \<Rightarrow> (case rows_documents env table rs of (ds, ok) \<Rightarrow> (d # ds, ok)))"

definition table_documents :: "indexer_env \<Rightarrow> string \<Rightarrow> document list \<times> bool" where
  "table_documents env table =
     (case select_all env table of
        Inl e \<Rightarrow> ([], False)
      | Inr rows \<Rightarrow> rows_documents env table rows)"

fun tables_documents :: "indexer_env \<Rightarrow> string list \<Rightarrow> document list \<times> bool" where
  "tables_documents env [] = ([], True)"
| "tables_documents env (t # ts) =
     (case table_documents env t of
        (ds, False) \<Rightarrow> (ds, False)
      | (ds, True) \<Rightarrow> (case tables_documents env ts of (ds', ok) \<Rightarrow> (ds @ ds', ok)))"

definition deterministic_api :: "indexer_env \<Rightarrow> bool" where
  "deterministic_api env = (\<forall>n text. embeddings_create env n text = embeddings_create env 0 text)"

definition lookup_doc :: "document list \<Rightarrow> string \<times> jsval option \<Rightarrow> document option" where
  "lookup_doc ds k = find (\<lambda>d. doc_key d = k) ds"

definition produced :: "indexer_env \<Rightarrow> string \<Rightarrow> row \<Rightarrow> document \<Rightarrow> bool" where
  "produced env table r d =
     (\<exists>txt n emb. serialize (accounts_single env) table r = Inr txt \<and>
        embeddings_create env n txt = Inr emb \<and> d = mk_document table r txt emb)"

definition holds_row :: "indexer_env \<Rightarrow> string \<Rightarrow> jsval option \<Rightarrow> document list \<Rightarrow> bool" where
  "holds_row env table i ds =
     (\<exists>d \<in> set ds. doc_key d = (table, i) \<and>
        (\<exists>rows r. select_all env table = Inr rows \<and> r \<in> set rows \<and> get_prop r ''id'' = i \<and>
           produced env table r d))"

text \<open>What a document holds besides its embedding, and what a row gives for it.\<close>

definition sketch :: "document \<Rightarrow> (string \<times> jsval option) \<times> jsval option \<times> string" where
  "sketch d = (doc_key d, user_id d, content d)"

definition row_sketch :: "indexer_env \<Rightarrow> string \<Rightarrow> row \<Rightarrow> (string \<times> jsval option) \<times> jsval option \<times> string" where
  "row_sketch env table r =
     ((table, get_prop r ''id''), get_prop r ''user_id'',
      (case serialize (accounts_single env) table r of Inr c \<Rightarrow> c | Inl e \<Rightarrow> []))"

definition table_sketch :: "indexer_env \<Rightarrow> string \<Rightarrow> ((string \<times> jsval option) \<times> jsval option \<times> string) list" where
  "table_sketch env table =
     (case select_all env table of Inr rows \<Rightarrow> map (row_sketch env table) rows | Inl e \<Rightarrow> [])"

section \<open>Concrete inputs\<close>

text \<open>Small stores, environments and histories on which the theorems below are run.\<close>

definition twelve_turns :: "message list" where
  "twelve_turns =
     map (\<lambda>i. \<lparr>role = (if even i then ''user'' else ''assistant''), msg_content = decimal_digits i\<rparr>)
       [0..<12]"

definition two_user_state :: history_state where
  "two_user_state =
     [(''u1'', [\<lparr>role = ''user'', msg_content = ''hello''\<rparr>]),
      (''u2'', [\<lparr>role = ''user'', msg_content = ''cash?''\<rparr>,
               \<lparr>role = ''assistant'', msg_content = ''15900''\<rparr>])]"

definition fresh_fs :: file_system where
  "fresh_fs = \<lparr>history = Missing, write_error = None\<rparr>"


definition demo_bot_env :: bot_env where
  "demo_bot_env =
     \<lparr>USER_ID = ''u1'',
      financial_kb_select =
        Inr [[(''title'', JStr ''Runway''), (''content'', JStr ''Runway = Cash / Burn'')]],
      embed = (\<lambda>question. Inr [1/2, 0]),
      match_documents = (\<lambda>p_user_id query_embedding match_threshold match_count.
         Inr [[(''content'', JStr ''ACCOUNTS | id=1''), (''similarity'', JNum 1)],
              [(''content'', JStr ''VENDORS | id=7''), (''similarity'', JNum 0)]]),
      chat_completions = (\<lambda>messages temperature max_tokens. Inr '' The cash balance is 15900. '')\<rparr>"

definition demo_context :: string where
  "demo_context =
     ''--- FINANCIAL FORMULAS ---'' @ nl @ ''**Runway**: Runway = Cash / Burn'' @ nl @ nl @
     ''--- USER DATA ROWS ---'' @ nl @ ''ACCOUNTS | id=1'' @ nl @ ''---'' @ nl @ ''VENDORS | id=7''"

definition empty_bot_env :: bot_env where
  "empty_bot_env =
     \<lparr>USER_ID = ''u1'',
      financial_kb_select = Inr [],
      embed = (\<lambda>question. Inr [0]),
      match_documents = (\<lambda>p_user_id query_embedding match_threshold match_count. Inr []),
      chat_completions = (\<lambda>messages temperature max_tokens. Inr ''Your revenue was 42.'')\<rparr>"

definition empty_world :: world where
  "empty_world = \<lparr>documents = [], api_calls = 0\<rparr>"

definition account_a1 :: row where
  "account_a1 = [(''id'', JStr ''a1''), (''user_id'', JStr ''u1''), (''name'', JStr ''Checking'')]"

definition account_a2 :: row where
  "account_a2 = [(''id'', JStr ''a2''), (''user_id'', JStr ''u1''), (''name'', JStr ''Savings'')]"

definition account_a3 :: row where
  "account_a3 = [(''id'', JStr ''a3''), (''user_id'', JStr ''u1''), (''name'', JStr ''Card'')]"

definition fact_a1 :: string where
  "fact_a1 = ''ACCOUNTS | id='' @ dq @ ''a1'' @ dq @ '' | user_id='' @ dq @ ''u1'' @ dq @
             '' | name='' @ dq @ ''Checking'' @ dq"

text \<open>An embeddings endpoint that fails the first attempt of every call and then answers.\<close>

definition flaky_env :: indexer_env where
  "flaky_env =
     \<lparr>select_all = (\<lambda>table. if table = ''accounts'' then Inr [account_a1, account_a2] else Inr []),
      accounts_single = (\<lambda>account_id. Inl (StoreError ''no rows'')),
      embeddings_request =
        (\<lambda>n a text. if a = 0 then Inl (ApiError ''429 rate limit'') else Inr [1/2]),
      should_retry = (\<lambda>e. e = ApiError ''429 rate limit''),
      upsert_error = (\<lambda>d. None)\<rparr>"

text \<open>An embeddings endpoint that fails every attempt with a transient error.\<close>

definition exhausted_env :: indexer_env where
  "exhausted_env =
     \<lparr>select_all = (\<lambda>table. Inr []),
      accounts_single = (\<lambda>account_id. Inl (StoreError ''no rows'')),
      embeddings_request = (\<lambda>n a text. Inl (ApiError ''429 rate limit'')),
      should_retry = (\<lambda>e. e = ApiError ''429 rate limit''),
      upsert_error = (\<lambda>d. None)\<rparr>"

definition vendor_v1 :: row where
  "vendor_v1 = [(''id'', JStr ''v1''), (''user_id'', JStr ''u1'')]"

definition fact_v1 :: string where
  "fact_v1 = ''VENDORS | id='' @ dq @ ''v1'' @ dq @ '' | user_id='' @ dq @ ''u1'' @ dq"

text \<open>
  Two states of the \<^verbatim>\<open>accounts\<close> table, before and after account \<^verbatim>\<open>a1\<close> is
  renamed, with an embeddings API that is a function of the text; and a store whose
  second embedding call fails while a third account and a vendor are still to come.
\<close>

definition account_a1_renamed :: row where
  "account_a1_renamed = [(''id'', JStr ''a1''), (''user_id'', JStr ''u1''), (''name'', JStr ''Main Checking'')]"

definition fact_a2 :: string where
  "fact_a2 = ''ACCOUNTS | id='' @ dq @ ''a2'' @ dq @ '' | user_id='' @ dq @ ''u1'' @ dq @
             '' | name='' @ dq @ ''Savings'' @ dq"

definition fact_a1_renamed :: string where
  "fact_a1_renamed = ''ACCOUNTS | id='' @ dq @ ''a1'' @ dq @ '' | user_id='' @ dq @ ''u1'' @ dq @
             '' | name='' @ dq @ ''Main Checking'' @ dq"

definition steady_env :: indexer_env where
  "steady_env =
     \<lparr>select_all = (\<lambda>table. if table = ''accounts'' then Inr [account_a1, account_a2] else Inr []),
      accounts_single = (\<lambda>account_id. Inl (StoreError ''no rows'')),
      embeddings_request = (\<lambda>n a text. Inr [of_nat (length text)]),
      should_retry = (\<lambda>e. e = ApiError ''429 rate limit''),
      upsert_error = (\<lambda>d. None)\<rparr>"

definition renamed_env :: indexer_env where
  "renamed_env =
     \<lparr>select_all = (\<lambda>table. if table = ''accounts'' then Inr [account_a1_renamed, account_a2] else Inr []),
      accounts_single = (\<lambda>account_id. Inl (StoreError ''no rows'')),
      embeddings_request = (\<lambda>n a text. Inr [of_nat (length text)]),
      should_retry = (\<lambda>e. e = ApiError ''429 rate limit''),
      upsert_error = (\<lambda>d. None)\<rparr>"

text \<open>An embeddings endpoint whose vector depends on which call it answers.\<close>

definition drifting_env :: indexer_env where
  "drifting_env =
     \<lparr>select_all = (\<lambda>table. if table = ''accounts'' then Inr [account_a1, account_a2] else Inr []),
      accounts_single = (\<lambda>account_id. Inl (StoreError ''no rows'')),
      embeddings_request = (\<lambda>n a text. Inr [of_nat n]),
      should_retry = (\<lambda>e. e = ApiError ''429 rate limit''),
      upsert_error = (\<lambda>d. None)\<rparr>"

definition doc_a1 :: document where
  "doc_a1 = \<lparr>user_id = Some (JStr ''u1''), source_table = ''accounts'', source_id = Some (JStr ''a1''),
             content = fact_a1, embedding = [of_nat (length fact_a1)]\<rparr>"

definition doc_a2 :: document where
  "doc_a2 = \<lparr>user_id = Some (JStr ''u1''), source_table = ''accounts'', source_id = Some (JStr ''a2''),
             content = fact_a2, embedding = [of_nat (length fact_a2)]\<rparr>"

definition doc_a1_renamed :: document where
  "doc_a1_renamed = \<lparr>user_id = Some (JStr ''u1''), source_table = ''accounts'', source_id = Some (JStr ''a1''),
             content = fact_a1_renamed, embedding = [of_nat (length fact_a1_renamed)]\<rparr>"

definition halting_env :: indexer_env where
  "halting_env =
     \<lparr>select_all = (\<lambda>table. if table = ''accounts'' then Inr [account_a1, account_a2, account_a3]
          else if table = ''vendors'' then Inr [vendor_v1]
          else Inr []),
      accounts_single = (\<lambda>account_id. Inl (StoreError ''no rows'')),
      embeddings_request =
        (\<lambda>n a text. if n = 1 then Inl (ApiError ''500 server error'') else Inr [of_nat (length text)]),
      should_retry = (\<lambda>e. e = ApiError ''500 server error''),
      upsert_error = (\<lambda>d. None)\<rparr>"

section \<open>Properties of the Serializer\<close>

text \<open>
  C1. A balance-snapshot row dated 2025-03-31 with balance 15900, whose account lookup
  yields the name Main Checking and the type cash, serializes under
  \<^verbatim>\<open>account_snapshots\<close> to exactly the fact string of Scenario A. And for every
  table and row the result is determined by the input: two calls whose account lookup
  answers the same for the account id of the row return the same result.
\<close>

theorem serialize_scenario_A_deterministic:
  \<open>(lookup (get_prop r ''account_id'') = Inr acct \<and>
    get_prop acct ''name'' = Some (JStr ''Main Checking'') \<and>
    get_prop acct ''type'' = Some (JStr ''cash'') \<and>
    get_prop r ''snapshot_date'' = Some (JStr ''2025-03-31'') \<and>
    get_prop r ''balance'' = Some (JNum 15900) \<longrightarrow>
    serialize lookup ''account_snapshots'' r =
      Inr ''Account Balance | account_name="Main Checking" | account_type="cash" | as_of="2025-03-31" | cash_balance=15900'')
   \<and> (lookup (get_prop r ''account_id'') = lookup' (get_prop r ''account_id'') \<longrightarrow>
    serialize lookup table r = serialize lookup' table r)\<close>
proof (intro conjI impI)
  assume h: "lookup (get_prop r ''account_id'') = Inr acct \<and>
    get_prop acct ''name'' = Some (JStr ''Main Checking'') \<and>
    get_prop acct ''type'' = Some (JStr ''cash'') \<and>
    get_prop r ''snapshot_date'' = Some (JStr ''2025-03-31'') \<and>
    get_prop r ''balance'' = Some (JNum 15900)"
  have n: "number_to_string 15900 = ''15900''"
    by (simp add: number_to_string_def decimal_digits.simps digit_char_def)
  from h show \<open>serialize lookup ''account_snapshots'' r =
      Inr ''Account Balance | account_name="Main Checking" | account_type="cash" | as_of="2025-03-31" | cash_balance=15900''\<close>
    by (simp add: serialize_def template_def dq_def n)
next
  assume "lookup (get_prop r ''account_id'') = lookup' (get_prop r ''account_id'')"
  then show "serialize lookup table r = serialize lookup' table r"
    by (simp add: serialize_def)
qed

theorem serialize_scenario_A_witness:
  \<open>serialize (\<lambda>_. Inr [(''name'', JStr ''Main Checking''), (''type'', JStr ''cash'')])
     ''account_snapshots''
     [(''id'', JStr ''s1''), (''user_id'', JStr ''u1''), (''account_id'', JStr ''a1''),
      (''snapshot_date'', JStr ''2025-03-31''), (''balance'', JNum 15900)] =
   Inr ''Account Balance | account_name="Main Checking" | account_type="cash" | as_of="2025-03-31" | cash_balance=15900''
  \<and> serialize (\<lambda>k. if k = Some (JStr ''a1'') then Inl (StoreError ''no rows'') else Inr [])
       ''account_snapshots'' [(''account_id'', JStr ''a1'')] =
     serialize (\<lambda>_. Inl (StoreError ''no rows'')) ''account_snapshots'' [(''account_id'', JStr ''a1'')]\<close>
  using serialize_scenario_A_deterministic
    [of "\<lambda>_. Inr [(''name'', JStr ''Main Checking''), (''type'', JStr ''cash'')]"
        "[(''id'', JStr ''s1''), (''user_id'', JStr ''u1''), (''account_id'', JStr ''a1''),
          (''snapshot_date'', JStr ''2025-03-31''), (''balance'', JNum 15900)]"
        "[(''name'', JStr ''Main Checking''), (''type'', JStr ''cash'')]"]
     serialize_scenario_A_deterministic
    [of "\<lambda>k. if k = Some (JStr ''a1'') then Inl (StoreError ''no rows'') else Inr []"
        "[(''account_id'', JStr ''a1'')]" "[]" "\<lambda>_. Inl (StoreError ''no rows'')" "''account_snapshots''"]
  by (simp add: get_prop_def)


section \<open>Properties of the HistoryStore\<close>

lemma map_of_update_prop: "map_of (update_prop k v al) = (map_of al)(k \<mapsto> v)"
  by (induction al) (auto simp: fun_eq_iff)

lemma map_of_set_prop:
  "k \<noteq> ''__proto__'' \<or> map_of al k \<noteq> None \<Longrightarrow> map_of (set_prop k v al) = (map_of al)(k \<mapsto> v)"
  by (auto simp: set_prop_def map_of_update_prop)

lemma map_of_set_prop_other: "other \<noteq> k \<Longrightarrow> map_of (set_prop k v al) other = map_of al other"
  by (simp add: set_prop_def map_of_update_prop)

lemma slice_last_drop: "length xs = n + k \<Longrightarrow> slice_last n xs = drop k xs"
  by (simp add: slice_last_def)

lemma slice_last_idem: "slice_last n (slice_last n xs) = slice_last n xs"
  by (simp add: slice_last_def)

lemma slice_last_twelve: "slice_last HISTORY_LIMIT twelve_turns = drop 2 twelve_turns"
  by (simp add: slice_last_def twelve_turns_def HISTORY_LIMIT_def)

text \<open>
  For a scope whose id is not \<^verbatim>\<open>__proto__\<close>, and a file that is absent, unparsable or
  holds the persisted state, a save of \<open>N + k\<close> turns that writes the file leaves the
  turns without the \<open>k\<close> oldest as the persisted history of the scope, and
  \<^verbatim>\<open>loadHistory\<close> returns them in order.
\<close>

lemma saveHistory_last_N_own_key:
  assumes "length turns = HISTORY_LIMIT + k" and "write_error fs = None"
    and "userId \<noteq> ''__proto__''"
    and "history fs = Missing \<or> history fs = Unparsable \<or> (\<exists>all. history fs = Stored all)"
  shows "\<exists>fs'. saveHistory userId turns fs = Inr fs' \<and>
           persisted fs' userId = Some (drop k turns) \<and>
           length (drop k turns) = HISTORY_LIMIT \<and>
           loadHistory userId fs' = drop k turns"
proof -
  let ?all = "case history fs of Stored a \<Rightarrow> a | _ \<Rightarrow> []"
  let ?fs' = "fs\<lparr>history := Stored (set_prop userId (slice_last HISTORY_LIMIT turns) ?all)\<rparr>"
  have s: "slice_last HISTORY_LIMIT turns = drop k turns"
    using assms(1) by (rule slice_last_drop)
  have 1: "saveHistory userId turns fs = Inr ?fs'"
    using assms(2,4) by (auto simp: saveHistory_def assign_prop_def writeFileSync_def)
  have 2: "persisted ?fs' userId = Some (drop k turns)"
    using assms(3) by (simp add: persisted_def map_of_set_prop s)
  have 3: "length (drop k turns) = HISTORY_LIMIT"
    using assms(1) by simp
  have 4: "loadHistory userId ?fs' = drop k turns"
    using assms(3) s slice_last_idem [of HISTORY_LIMIT turns]
    by (simp add: loadHistory_def map_of_set_prop)
  from 1 2 3 4 show ?thesis by blast
qed

text \<open>
  C3, at the scope id \<^verbatim>\<open>__proto__\<close>. Twelve turns are saved for the scope on a fresh
  file and the write succeeds, yet the state written is the empty object: the scope has
  no persisted history and \<^verbatim>\<open>loadHistory\<close> returns no turn, where the claim has the
  ten most recent.
\<close>

theorem saveHistory_proto_not_persisted:
  "saveHistory ''__proto__'' twelve_turns fresh_fs = Inr \<lparr>history = Stored [], write_error = None\<rparr> \<and>
   persisted \<lparr>history = Stored [], write_error = None\<rparr> ''__proto__'' = None \<and>
   loadHistory ''__proto__'' \<lparr>history = Stored [], write_error = None\<rparr> = [] \<and>
   length twelve_turns = HISTORY_LIMIT + 2"
  by (simp add: saveHistory_def assign_prop_def set_prop_def writeFileSync_def fresh_fs_def
        persisted_def loadHistory_def twelve_turns_def HISTORY_LIMIT_def)

text \<open>
  C8. A save for one scope that writes the file leaves the persisted history of every
  other scope as it was before the save.
\<close>

theorem saveHistory_frame:
  assumes "saveHistory userId turns fs = Inr fs'" and "other \<noteq> userId"
  shows "persisted fs' other = persisted fs other"
  using assms
  by (auto simp: saveHistory_def assign_prop_def writeFileSync_def persisted_def
                 map_of_set_prop_other
           split: option.splits history_file.splits if_splits)

theorem saveHistory_frame_witness:
  "saveHistory ''u1'' twelve_turns \<lparr>history = Stored two_user_state, write_error = None\<rparr> =
     Inr \<lparr>history = Stored (set_prop ''u1'' (slice_last HISTORY_LIMIT twelve_turns) two_user_state),
          write_error = None\<rparr> \<and>
   persisted \<lparr>history = Stored (set_prop ''u1'' (slice_last HISTORY_LIMIT twelve_turns) two_user_state),
          write_error = None\<rparr> ''u2'' =
   Some [\<lparr>role = ''user'', msg_content = ''cash?''\<rparr>, \<lparr>role = ''assistant'', msg_content = ''15900''\<rparr>]"
proof -
  have s: "saveHistory ''u1'' twelve_turns \<lparr>history = Stored two_user_state, write_error = None\<rparr> =
     Inr \<lparr>history = Stored (set_prop ''u1'' (slice_last HISTORY_LIMIT twelve_turns) two_user_state),
          write_error = None\<rparr>"
    by (simp add: saveHistory_def assign_prop_def writeFileSync_def)
  have n: "''u2'' \<noteq> ''u1''" by simp
  from saveHistory_frame [OF s n] s show ?thesis
    by (simp add: persisted_def two_user_state_def)
qed

text \<open>
  For a scope whose id is not \<^verbatim>\<open>__proto__\<close>: when the history file is missing or
  cannot be parsed, the read failure is not passed on, and the save is the write of a
  state that holds the trimmed history of the given scope and nothing else.
\<close>

lemma saveHistory_fresh_state_own_key:
  assumes "history fs = Missing \<or> history fs = Unparsable" and "userId \<noteq> ''__proto__''"
  shows "saveHistory userId turns fs =
           writeFileSync (Stored [(userId, slice_last HISTORY_LIMIT turns)]) fs"
  using assms by (auto simp: saveHistory_def assign_prop_def set_prop_def)

text \<open>
  C10, at the scope id \<^verbatim>\<open>__proto__\<close>. The history file cannot be parsed, the save
  does not fail and starts from the empty state, but the state it writes is the empty
  object: it does not contain the trimmed history of the given scope, which the claim
  says it does.
\<close>

theorem saveHistory_proto_fresh_state:
  "saveHistory ''__proto__'' twelve_turns \<lparr>history = Unparsable, write_error = None\<rparr> =
     Inr \<lparr>history = Stored [], write_error = None\<rparr> \<and>
   slice_last HISTORY_LIMIT twelve_turns \<noteq> [] \<and>
   Stored [] \<noteq> Stored [(''__proto__'', slice_last HISTORY_LIMIT twelve_turns)]"
proof -
  have "length (slice_last HISTORY_LIMIT twelve_turns) = 10"
    by (simp add: slice_last_def twelve_turns_def HISTORY_LIMIT_def)
  then have "slice_last HISTORY_LIMIT twelve_turns \<noteq> []" by auto
  then show ?thesis
    by (simp add: saveHistory_def assign_prop_def set_prop_def writeFileSync_def)
qed

text \<open>
  A file that holds \<^verbatim>\<open>null\<close> makes the save throw, and one that holds the empty array
  is written back as it is: in neither case is the history of the scope persisted.
\<close>

lemma saveHistory_null_throws:
  "saveHistory ''u1'' twelve_turns \<lparr>history = StoredNull, write_error = None\<rparr> =
     Inl (TypeError ''Cannot set properties of null'')"
  by (simp add: saveHistory_def assign_prop_def)

lemma saveHistory_empty_array:
  "saveHistory ''u1'' twelve_turns \<lparr>history = StoredArray [], write_error = None\<rparr> =
     Inr \<lparr>history = StoredArray [], write_error = None\<rparr>"
  by (simp add: saveHistory_def assign_prop_def array_index_def writeFileSync_def)

section \<open>Properties of the ContextAssembler\<close>

lemma sublist_join: "x \<in> set xs \<Longrightarrow> sublist x (join sep xs)"
proof (induction sep xs rule: join.induct)
  case (1 sep)
  then show ?case by simp
next
  case (2 sep y)
  then show ?case by simp
next
  case (3 sep y z zs)
  show ?case
  proof (cases "x = y")
    case True
    then show ?thesis by (simp add: sublist_append_rightI)
  next
    case False
    with 3 have "sublist x (join sep (z # zs))" by simp
    then show ?thesis by (simp add: sublist_append)
  qed
qed

lemma fetchContext_demo: "fetchContext demo_bot_env ''How much cash?'' 50 = Inr demo_context"
  by (simp add: demo_bot_env_def demo_context_def fetchContext_def kb_line_def template_def
        join_elem_def row_separator_def get_prop_def)

text \<open>
  C4. When the KB read, the embedding of the question or the similarity search fails,
  \<^verbatim>\<open>fetchContext\<close> fails with that error and returns no text. Otherwise it returns, each
  on a line of its own, the formulas header, the line \<^verbatim>\<open>**title**: content\<close> of every KB
  row in the order read, an empty line, the data header, and the contents of the returned
  documents in the order returned, each two joined by a line holding \<^verbatim>\<open>---\<close>: every
  KB row's line occurs in the first section and every returned document's content
  occurs verbatim in the second.
\<close>

theorem fetchContext_sections_all_or_nothing:
  "(case financial_kb_select env of
      Inl e \<Rightarrow> fetchContext env question count = Inl e
    | Inr defs \<Rightarrow>
        (case embed env question of
           Inl e \<Rightarrow> fetchContext env question count = Inl e
         | Inr qvec \<Rightarrow>
             (case match_documents env (USER_ID env) qvec 0 count of
                Inl e \<Rightarrow> fetchContext env question count = Inl e
              | Inr rows \<Rightarrow>
                  (\<exists>kbText dataText.
                     fetchContext env question count =
                       Inr (''--- FINANCIAL FORMULAS ---'' @ [CHR 0x0A] @ kbText @ [CHR 0x0A] @ [CHR 0x0A] @
                            ''--- USER DATA ROWS ---'' @ [CHR 0x0A] @ dataText) \<and>
                     kbText =
                       join [CHR 0x0A]
                         (map (\<lambda>d. ''**'' @ template (get_prop d ''title'') @ ''**: '' @
                                    template (get_prop d ''content'')) defs) \<and>
                     dataText =
                       join ([CHR 0x0A] @ ''---'' @ [CHR 0x0A])
                         (map (\<lambda>r. join_elem (get_prop r ''content'')) rows) \<and>
                     (\<forall>d \<in> set defs.
                        sublist (''**'' @ template (get_prop d ''title'') @ ''**: '' @
                                 template (get_prop d ''content'')) kbText) \<and>
                     (\<forall>r \<in> set rows. \<forall>s. get_prop r ''content'' = Some (JStr s) \<longrightarrow>
                        sublist s dataText)))))"
proof -
  have kb: "\<forall>d \<in> set defs. sublist (f d) (join sep (map f defs))"
    for defs :: "row list" and f :: "row \<Rightarrow> string" and sep
    by (simp add: sublist_join)
  have dt: "\<forall>r \<in> set rows. \<forall>s. get_prop r ''content'' = Some (JStr s) \<longrightarrow>
              sublist s (join sep (map (\<lambda>r. join_elem (get_prop r ''content'')) rows))"
    for rows sep
  proof (intro ballI allI impI)
    fix r s assume r: "r \<in> set rows" and s: "get_prop r ''content'' = Some (JStr s)"
    from r have "join_elem (get_prop r ''content'')
                   \<in> set (map (\<lambda>r. join_elem (get_prop r ''content'')) rows)"
      by simp
    then have "sublist (join_elem (get_prop r ''content''))
                 (join sep (map (\<lambda>r. join_elem (get_prop r ''content'')) rows))"
      by (rule sublist_join)
    with s show "sublist s (join sep (map (\<lambda>r. join_elem (get_prop r ''content'')) rows))"
      by (simp add: join_elem_def)
  qed
  have k: "kb_line = (\<lambda>d. ''**'' @ template (get_prop d ''title'') @ ''**: '' @
                           template (get_prop d ''content''))"
    by (rule ext) (simp add: kb_line_def)
  have out: "fetchContext env question count =
    (case financial_kb_select env of
       Inl e \<Rightarrow> Inl e
     | Inr defs \<Rightarrow>
        (case embed env question of
           Inl e \<Rightarrow> Inl e
         | Inr qvec \<Rightarrow>
            (case match_documents env (USER_ID env) qvec 0 count of
               Inl e \<Rightarrow> Inl e
             | Inr rows \<Rightarrow>
                 Inr (''--- FINANCIAL FORMULAS ---'' @ [CHR 0x0A] @
                      join [CHR 0x0A]
                        (map (\<lambda>d. ''**'' @ template (get_prop d ''title'') @ ''**: '' @
                                   template (get_prop d ''content'')) defs) @
                      [CHR 0x0A] @ [CHR 0x0A] @ ''--- USER DATA ROWS ---'' @ [CHR 0x0A] @
                      join ([CHR 0x0A] @ ''---'' @ [CHR 0x0A])
                        (map (\<lambda>r. join_elem (get_prop r ''content'')) rows)))))"
    by (simp add: fetchContext_def k nl_def row_separator_def split: sum.splits)
  show ?thesis
  proof (cases "financial_kb_select env")
    case (Inl e)
    then show ?thesis by (simp add: out)
  next
    case kbr: (Inr defs)
    show ?thesis
    proof (cases "embed env question")
      case (Inl e)
      with kbr show ?thesis by (simp add: out)
    next
      case emb: (Inr qvec)
      show ?thesis
      proof (cases "match_documents env (USER_ID env) qvec 0 count")
        case (Inl e)
        with kbr emb show ?thesis by (simp add: out)
      next
        case (Inr rows)
        with kbr emb
          kb [of defs "\<lambda>d. ''**'' @ template (get_prop d ''title'') @ ''**: '' @
                           template (get_prop d ''content'')" "[CHR 0x0A]"]
          dt [of rows "[CHR 0x0A] @ ''---'' @ [CHR 0x0A]"]
        show ?thesis by (simp add: out)
      qed
    qed
  qed
qed

theorem fetchContext_sections_witness:
  "fetchContext demo_bot_env ''How much cash?'' 50 =
     Inr (''--- FINANCIAL FORMULAS ---'' @ [CHR 0x0A] @
          ''**Runway**: Runway = Cash / Burn'' @ [CHR 0x0A] @ [CHR 0x0A] @
          ''--- USER DATA ROWS ---'' @ [CHR 0x0A] @
          ''ACCOUNTS | id=1'' @ [CHR 0x0A] @ ''---'' @ [CHR 0x0A] @ ''VENDORS | id=7'') \<and>
   sublist ''VENDORS | id=7''
     (''ACCOUNTS | id=1'' @ [CHR 0x0A] @ ''---'' @ [CHR 0x0A] @ ''VENDORS | id=7'')"
proof -
  have k: "financial_kb_select demo_bot_env =
             Inr [[(''title'', JStr ''Runway''), (''content'', JStr ''Runway = Cash / Burn'')]]"
    and e: "embed demo_bot_env ''How much cash?'' = Inr [1/2, 0]"
    and m: "match_documents demo_bot_env (USER_ID demo_bot_env) [1/2, 0] 0 50 =
             Inr [[(''content'', JStr ''ACCOUNTS | id=1''), (''similarity'', JNum 1)],
                  [(''content'', JStr ''VENDORS | id=7''), (''similarity'', JNum 0)]]"
    by (simp_all add: demo_bot_env_def)
  from fetchContext_sections_all_or_nothing [of demo_bot_env "''How much cash?''" 50]
  obtain kbText dataText where
    f: "fetchContext demo_bot_env ''How much cash?'' 50 =
       Inr (''--- FINANCIAL FORMULAS ---'' @ [CHR 0x0A] @ kbText @ [CHR 0x0A] @ [CHR 0x0A] @
            ''--- USER DATA ROWS ---'' @ [CHR 0x0A] @ dataText)"
    and kt: "kbText =
       join [CHR 0x0A]
         (map (\<lambda>d. ''**'' @ template (get_prop d ''title'') @ ''**: '' @
                    template (get_prop d ''content''))
            [[(''title'', JStr ''Runway''), (''content'', JStr ''Runway = Cash / Burn'')]])"
    and dt: "dataText =
       join ([CHR 0x0A] @ ''---'' @ [CHR 0x0A])
         (map (\<lambda>r. join_elem (get_prop r ''content''))
            [[(''content'', JStr ''ACCOUNTS | id=1''), (''similarity'', JNum 1)],
             [(''content'', JStr ''VENDORS | id=7''), (''similarity'', JNum 0)]])"
    and sub: "\<forall>r \<in> set [[(''content'', JStr ''ACCOUNTS | id=1''), (''similarity'', JNum 1)],
                  [(''content'', JStr ''VENDORS | id=7''), (''similarity'', JNum 0)]].
        \<forall>s. get_prop r ''content'' = Some (JStr s) \<longrightarrow> sublist s dataText"
    unfolding k e m sum.case by blast
  have kv: "kbText = ''**Runway**: Runway = Cash / Burn''"
    unfolding kt by (simp add: template_def get_prop_def)
  have dv: "dataText = ''ACCOUNTS | id=1'' @ [CHR 0x0A] @ ''---'' @ [CHR 0x0A] @ ''VENDORS | id=7''"
    unfolding dt by (simp add: join_elem_def get_prop_def)
  from sub have "sublist ''VENDORS | id=7'' dataText"
    by (simp add: get_prop_def)
  with f show ?thesis
    unfolding kv dv by simp
qed

section \<open>Properties of the Orchestrator\<close>

lemma trim_demo: "trim '' The cash balance is 15900. '' = ''The cash balance is 15900.''"
  by (simp add: trim_def white_space_def strip_start.simps)

lemma trim_42: "trim ''Your revenue was 42.'' = ''Your revenue was 42.''"
  by (simp add: trim_def white_space_def strip_start.simps)

lemma trim_REFUSAL: "trim REFUSAL = REFUSAL"
  by (simp add: trim_def white_space_def strip_start.simps REFUSAL_def rsquo_def)





text \<open>
  C9, as the code has it. The claim that the answer is the refusal string whenever
  nothing matches fails: with an empty KB and no matching document, a model that
  replies with a number has that reply returned as the answer.
\<close>

theorem answer_not_refusal_counterexample:
  "financial_kb_select empty_bot_env = Inr [] \<and>
   match_documents empty_bot_env ''u1'' [0] 0 50 = Inr [] \<and>
   fst (answer empty_bot_env ''What was revenue?'' fresh_fs) = Inr ''Your revenue was 42.'' \<and>
   ''Your revenue was 42.'' \<noteq> REFUSAL"
  by (simp add: empty_bot_env_def fresh_fs_def answer_def fetchContext_def loadHistory_def
        saveHistory_def assign_prop_def set_prop_def writeFileSync_def trim_42 REFUSAL_def Let_def)

text \<open>
  C9, amended. The policy message is the fixed text below, which holds the refusal
  string between double quotes, and trimming leaves the refusal string as it is. The
  caller receives an answer if and only if the context is fetched, the language model
  replies to the prior turns, the policy message, the context and the question, and
  the history save succeeds; the answer is then the trimmed reply. With an empty KB and
  no matching document the context is the two section headers over empty sections. So
  the answer is whatever the model replies to that, trimmed: the code holds the refusal
  string in the policy message only and never puts it in place of a reply.
\<close>

theorem answer_is_trimmed_reply:
  "policyPrompt =
     ''You are a senior financial analyst assistant, expert in accounting. '' @
     ''For **financial** questions, you may ONLY use the supplied context. '' @
     ''If information is missing, respond exactly: '' @
     [CHR 0x22] @ ''I'' @ [CHR 0xE2, CHR 0x80, CHR 0x99] @
     ''m a financial assistant and can only provide answers based on the financial data available to me.'' @
     [CHR 0x22] @
     '' For **meta** questions about your previous answers (e.g. '' @ [CHR 0x22] @ ''why did you '' @
     [CHR 0xE2, CHR 0x80, CHR 0xA6] @ [CHR 0x22] @ ''), '' @
     ''you may explain your reasoning even if that reasoning isn'' @ [CHR 0xE2, CHR 0x80, CHR 0x99] @
     ''t in the context. '' @
     ''- Always cite which context rows or formulas you used when giving numbers.'' \<and>
   trim (''I'' @ [CHR 0xE2, CHR 0x80, CHR 0x99] @
     ''m a financial assistant and can only provide answers based on the financial data available to me.'') =
     ''I'' @ [CHR 0xE2, CHR 0x80, CHR 0x99] @
     ''m a financial assistant and can only provide answers based on the financial data available to me.'' \<and>
   (fst (answer env question fs) = Inr a \<longleftrightarrow>
      (\<exists>context reply fs'.
         fetchContext env question 50 = Inr context \<and>
         chat_completions env
           (loadHistory (USER_ID env) fs @
            [\<lparr>role = ''system'', msg_content = policyPrompt\<rparr>,
             \<lparr>role = ''system'', msg_content = context\<rparr>,
             \<lparr>role = ''user'', msg_content = question\<rparr>]) 0 700 = Inr reply \<and>
         saveHistory (USER_ID env)
           (loadHistory (USER_ID env) fs @
            [\<lparr>role = ''user'', msg_content = question\<rparr>,
             \<lparr>role = ''assistant'', msg_content = trim reply\<rparr>]) fs = Inr fs' \<and>
         a = trim reply)) \<and>
   (financial_kb_select env = Inr [] \<and> embed env question = Inr qvec \<and>
    match_documents env (USER_ID env) qvec 0 50 = Inr [] \<longrightarrow>
      fetchContext env question 50 =
        Inr (''--- FINANCIAL FORMULAS ---'' @ [CHR 0x0A, CHR 0x0A, CHR 0x0A] @
             ''--- USER DATA ROWS ---'' @ [CHR 0x0A]))"
proof (intro conjI)
  show "policyPrompt =
     ''You are a senior financial analyst assistant, expert in accounting. '' @
     ''For **financial** questions, you may ONLY use the supplied context. '' @
     ''If information is missing, respond exactly: '' @
     [CHR 0x22] @ ''I'' @ [CHR 0xE2, CHR 0x80, CHR 0x99] @
     ''m a financial assistant and can only provide answers based on the financial data available to me.'' @
     [CHR 0x22] @
     '' For **meta** questions about your previous answers (e.g. '' @ [CHR 0x22] @ ''why did you '' @
     [CHR 0xE2, CHR 0x80, CHR 0xA6] @ [CHR 0x22] @ ''), '' @
     ''you may explain your reasoning even if that reasoning isn'' @ [CHR 0xE2, CHR 0x80, CHR 0x99] @
     ''t in the context. '' @
     ''- Always cite which context rows or formulas you used when giving numbers.''"
    by (simp add: policyPrompt_def REFUSAL_def rsquo_def dq_def)
  from trim_REFUSAL
  show "trim (''I'' @ [CHR 0xE2, CHR 0x80, CHR 0x99] @
     ''m a financial assistant and can only provide answers based on the financial data available to me.'') =
     ''I'' @ [CHR 0xE2, CHR 0x80, CHR 0x99] @
     ''m a financial assistant and can only provide answers based on the financial data available to me.''"
    by (simp only: REFUSAL_def rsquo_def)
  show "fst (answer env question fs) = Inr a \<longleftrightarrow>
      (\<exists>context reply fs'.
         fetchContext env question 50 = Inr context \<and>
         chat_completions env
           (loadHistory (USER_ID env) fs @
            [\<lparr>role = ''system'', msg_content = policyPrompt\<rparr>,
             \<lparr>role = ''system'', msg_content = context\<rparr>,
             \<lparr>role = ''user'', msg_content = question\<rparr>]) 0 700 = Inr reply \<and>
         saveHistory (USER_ID env)
           (loadHistory (USER_ID env) fs @
            [\<lparr>role = ''user'', msg_content = question\<rparr>,
             \<lparr>role = ''assistant'', msg_content = trim reply\<rparr>]) fs = Inr fs' \<and>
         a = trim reply)"
    by (auto simp: answer_def Let_def build_messages_def split: sum.splits)
  show "financial_kb_select env = Inr [] \<and> embed env question = Inr qvec \<and>
    match_documents env (USER_ID env) qvec 0 50 = Inr [] \<longrightarrow>
      fetchContext env question 50 =
        Inr (''--- FINANCIAL FORMULAS ---'' @ [CHR 0x0A, CHR 0x0A, CHR 0x0A] @
             ''--- USER DATA ROWS ---'' @ [CHR 0x0A])"
    by (simp add: fetchContext_def nl_def)
qed

theorem answer_is_trimmed_reply_witness:
  "fst (answer demo_bot_env ''How much cash?'' fresh_fs) = Inr ''The cash balance is 15900.'' \<and>
   fetchContext empty_bot_env ''What was revenue?'' 50 =
     Inr (''--- FINANCIAL FORMULAS ---'' @ [CHR 0x0A, CHR 0x0A, CHR 0x0A] @
          ''--- USER DATA ROWS ---'' @ [CHR 0x0A])"
proof -
  have u: "USER_ID demo_bot_env = ''u1''" by (simp add: demo_bot_env_def)
  have c: "chat_completions demo_bot_env
       (loadHistory (USER_ID demo_bot_env) fresh_fs @
        [\<lparr>role = ''system'', msg_content = policyPrompt\<rparr>,
         \<lparr>role = ''system'', msg_content = demo_context\<rparr>,
         \<lparr>role = ''user'', msg_content = ''How much cash?''\<rparr>]) 0 700 =
       Inr '' The cash balance is 15900. ''"
    by (simp add: demo_bot_env_def)
  have sv: "saveHistory (USER_ID demo_bot_env)
       (loadHistory (USER_ID demo_bot_env) fresh_fs @
        [\<lparr>role = ''user'', msg_content = ''How much cash?''\<rparr>,
         \<lparr>role = ''assistant'', msg_content = trim '' The cash balance is 15900. ''\<rparr>]) fresh_fs =
       Inr \<lparr>history = Stored [(''u1'', [\<lparr>role = ''user'', msg_content = ''How much cash?''\<rparr>,
                                     \<lparr>role = ''assistant'', msg_content = ''The cash balance is 15900.''\<rparr>])],
            write_error = None\<rparr>"
    by (simp add: u trim_demo fresh_fs_def loadHistory_def saveHistory_def assign_prop_def
          set_prop_def writeFileSync_def slice_last_def HISTORY_LIMIT_def)
  have e: "financial_kb_select empty_bot_env = Inr [] \<and>
           embed empty_bot_env ''What was revenue?'' = Inr [0] \<and>
           match_documents empty_bot_env (USER_ID empty_bot_env) [0] 0 50 = Inr []"
    by (simp add: empty_bot_env_def)
  from answer_is_trimmed_reply [where env = demo_bot_env and question = "''How much cash?''"
      and fs = fresh_fs and a = "''The cash balance is 15900.''"]
    fetchContext_demo c sv trim_demo
  have a: "fst (answer demo_bot_env ''How much cash?'' fresh_fs) = Inr ''The cash balance is 15900.''"
    by metis
  from answer_is_trimmed_reply [where env = empty_bot_env and question = "''What was revenue?''"
      and qvec = "[0]"] e
  have b: "fetchContext empty_bot_env ''What was revenue?'' 50 =
     Inr (''--- FINANCIAL FORMULAS ---'' @ [CHR 0x0A, CHR 0x0A, CHR 0x0A] @
          ''--- USER DATA ROWS ---'' @ [CHR 0x0A])"
    by blast
  from a b show ?thesis by simp
qed

section \<open>Properties of the Embedder and the Indexer\<close>

lemma serialize_a1: "serialize (accounts_single env) ''accounts'' account_a1 = Inr fact_a1"
  by (simp add: serialize_def toUpperCase_def upper_char_def json_quote_def json_escape_char_def
        dq_def account_a1_def fact_a1_def)

subsection \<open>The retries of the client\<close>

lemma attempts_made_bounds:
  "a < attempts_made attempt retry left a \<and> attempts_made attempt retry left a \<le> Suc (a + left)"
proof (induction left arbitrary: a)
  case 0
  show ?case by simp
next
  case (Suc left)
  from Suc.IH [of "Suc a"] show ?case
    by (auto split: sum.splits)
qed

lemma attempts_before_last_transient:
  "a \<le> b \<Longrightarrow> b < attempts_made attempt retry left a - 1 \<Longrightarrow>
   \<exists>e'. attempt b = Inl e' \<and> retry e'"
proof (induction left arbitrary: a)
  case 0
  then show ?case by simp
next
  case (Suc left)
  show ?case
  proof (cases "attempt a")
    case (Inr v)
    with Suc.prems show ?thesis by simp
  next
    case (Inl e)
    show ?thesis
    proof (cases "retry e")
      case False
      with Inl Suc.prems show ?thesis by simp
    next
      case True
      show ?thesis
      proof (cases "b = a")
        case True
        with Inl \<open>retry e\<close> show ?thesis by simp
      next
        case False
        with Suc.prems(1) have "Suc a \<le> b" by simp
        moreover from Suc.prems(2) Inl True have "b < attempts_made attempt retry left (Suc a) - 1"
          by simp
        ultimately show ?thesis by (rule Suc.IH)
      qed
    qed
  qed
qed

lemma request_is_last_attempt:
  "request_with_retries attempt retry left a = attempt (attempts_made attempt retry left a - 1)"
  by (induction left arbitrary: a) (auto split: sum.splits)

lemma transient_failure_exhausts:
  "request_with_retries attempt retry left a = Inl e \<Longrightarrow> retry e \<Longrightarrow>
   attempts_made attempt retry left a = Suc (a + left)"
  by (induction left arbitrary: a) (auto split: sum.splits if_splits)

lemma serialize_vendor: "serialize (accounts_single env) ''vendors'' vendor_v1 = Inr fact_v1"
  by (simp add: serialize_def toUpperCase_def upper_char_def json_quote_def json_escape_char_def
        dq_def vendor_v1_def fact_v1_def)

lemma exhausted_env_create:
  "embeddings_create exhausted_env n text = Inl (ApiError ''429 rate limit'')"
  "embeddings_attempts exhausted_env n text = 3"
  by (simp_all add: embeddings_create_def embeddings_attempts_def MAX_RETRIES_def numeral_2_eq_2
        exhausted_env_def)

text \<open>
  C6, as the code has it. The claim that the failure after the last attempt is an
  UpstreamServiceError naming the offending row or table fails: the embedding of an
  account and the embedding of a vendor both fail after three attempts, and both rows
  fail with the same value, the error of the endpoint as it came.
\<close>

theorem makeEmbedding_error_unnamed_counterexample:
  "snd (embedRow exhausted_env ''accounts'' account_a1 empty_world) = Inl (ApiError ''429 rate limit'') \<and>
   snd (embedRow exhausted_env ''vendors'' vendor_v1 empty_world) = Inl (ApiError ''429 rate limit'') \<and>
   embeddings_attempts exhausted_env 0 fact_a1 = 3 \<and>
   embeddings_attempts exhausted_env 0 fact_v1 = 3"
  by (simp add: embedRow_def serialize_a1 serialize_vendor makeEmbedding_def exhausted_env_create
        empty_world_def)

text \<open>
  C6, amended. \<^verbatim>\<open>makeEmbedding\<close> awaits one call of the client. The call makes at
  most three attempts; every attempt before the last failed with an error the client
  treats as transient; the outcome of the call is the outcome of its last attempt; and
  when that is a transient failure all three attempts were made. When the call fails
  for the fact of a row, the row fails with the error of that last attempt unchanged,
  whatever the table and the row.
\<close>

theorem makeEmbedding_retries_then_passes_error:
  "embeddings_attempts env (api_calls w) text \<le> 3 \<and>
   (\<forall>a < embeddings_attempts env (api_calls w) text - 1.
      \<exists>e'. embeddings_request env (api_calls w) a text = Inl e' \<and> should_retry env e') \<and>
   fst (makeEmbedding env text w) =
     embeddings_request env (api_calls w) (embeddings_attempts env (api_calls w) text - 1) text \<and>
   (fst (makeEmbedding env text w) = Inl e \<and> should_retry env e \<longrightarrow>
      embeddings_attempts env (api_calls w) text = 3) \<and>
   (serialize (accounts_single env) table r = Inr text \<and> fst (makeEmbedding env text w) = Inl e \<longrightarrow>
      snd (embedRow env table r w) = Inl e)"
proof (intro conjI allI impI)
  let ?attempt = "\<lambda>a. embeddings_request env (api_calls w) a text"
  show "embeddings_attempts env (api_calls w) text \<le> 3"
    using attempts_made_bounds [of 0 ?attempt "should_retry env" MAX_RETRIES]
    by (simp add: embeddings_attempts_def MAX_RETRIES_def)
  show "\<exists>e'. embeddings_request env (api_calls w) a text = Inl e' \<and> should_retry env e'"
    if "a < embeddings_attempts env (api_calls w) text - 1" for a
    using attempts_before_last_transient [of 0 a ?attempt "should_retry env" MAX_RETRIES] that
    by (simp add: embeddings_attempts_def)
  show "fst (makeEmbedding env text w) =
     embeddings_request env (api_calls w) (embeddings_attempts env (api_calls w) text - 1) text"
    using request_is_last_attempt [of ?attempt "should_retry env" MAX_RETRIES 0]
    by (simp add: makeEmbedding_def embeddings_create_def embeddings_attempts_def)
  show "embeddings_attempts env (api_calls w) text = 3"
    if "fst (makeEmbedding env text w) = Inl e \<and> should_retry env e"
    using transient_failure_exhausts [of ?attempt "should_retry env" MAX_RETRIES 0 e] that
    by (simp add: makeEmbedding_def embeddings_create_def embeddings_attempts_def MAX_RETRIES_def)
  show "snd (embedRow env table r w) = Inl e"
    if "serialize (accounts_single env) table r = Inr text \<and> fst (makeEmbedding env text w) = Inl e"
    using that by (auto simp: embedRow_def split: prod.splits)
qed

theorem makeEmbedding_retries_witness:
  "embeddings_attempts exhausted_env 0 fact_a1 = 3 \<and>
   snd (embedRow exhausted_env ''accounts'' account_a1 empty_world) = Inl (ApiError ''429 rate limit'') \<and>
   embeddings_request exhausted_env 0 1 fact_a1 = Inl (ApiError ''429 rate limit'') \<and>
   should_retry exhausted_env (ApiError ''429 rate limit'')"
proof -
  have f: "fst (makeEmbedding exhausted_env fact_a1 empty_world) = Inl (ApiError ''429 rate limit'')"
    by (simp add: makeEmbedding_def exhausted_env_create)
  have r: "should_retry exhausted_env (ApiError ''429 rate limit'')"
    by (simp add: exhausted_env_def)
  have c: "api_calls empty_world = 0"
    by (simp add: empty_world_def)
  from makeEmbedding_retries_then_passes_error
         [of exhausted_env empty_world fact_a1 "ApiError ''429 rate limit''" "''accounts''" account_a1]
       f r serialize_a1 [of exhausted_env]
  show ?thesis
    by (simp add: c exhausted_env_def)
qed

text \<open>A first attempt that fails transiently is made again, and the call succeeds.\<close>

lemma makeEmbedding_retry_recovers:
  "makeEmbedding flaky_env fact_a1 empty_world = (Inr [1/2], \<lparr>documents = [], api_calls = 1\<rparr>) \<and>
   embeddings_request flaky_env 0 0 fact_a1 = Inl (ApiError ''429 rate limit'') \<and>
   embeddings_attempts flaky_env 0 fact_a1 = 2"
  by (simp add: makeEmbedding_def embeddings_create_def embeddings_attempts_def MAX_RETRIES_def
        numeral_2_eq_2 flaky_env_def empty_world_def)

subsection \<open>Runs as sequences of upserts\<close>

lemma embedRow_plan:
  assumes "deterministic_api env"
  shows "documents (fst (embedRow env t r w)) =
           (case row_document env t r of None \<Rightarrow> documents w | Some d \<Rightarrow> upsert d (documents w))"
    and "isl (snd (embedRow env t r w)) \<longleftrightarrow> row_document env t r = None"
proof -
  from assms have d: "embeddings_create env (api_calls w) s = embeddings_create env 0 s" for s
    by (simp add: deterministic_api_def)
  show "documents (fst (embedRow env t r w)) =
           (case row_document env t r of None \<Rightarrow> documents w | Some d \<Rightarrow> upsert d (documents w))"
    by (simp add: embedRow_def row_document_def makeEmbedding_def d mk_document_def
          split: sum.splits option.splits)
  show "isl (snd (embedRow env t r w)) \<longleftrightarrow> row_document env t r = None"
    by (simp add: embedRow_def row_document_def makeEmbedding_def d mk_document_def
          split: sum.splits option.splits)
qed

lemma embedRows_plan:
  assumes "deterministic_api env"
  shows "documents (fst (embedRows env t rs w)) = fold upsert (fst (rows_documents env t rs)) (documents w)
       \<and> (isl (snd (embedRows env t rs w)) \<longleftrightarrow> \<not> snd (rows_documents env t rs))"
proof (induction rs arbitrary: w)
  case Nil
  show ?case by simp
next
  case (Cons r rs)
  obtain w1 res where s: "embedRow env t r w = (w1, res)" by (cases "embedRow env t r w")
  from embedRow_plan [OF assms, of t r w] s
  have 1: "documents w1 =
           (case row_document env t r of None \<Rightarrow> documents w | Some d \<Rightarrow> upsert d (documents w))"
    and 2: "isl res \<longleftrightarrow> row_document env t r = None" by simp_all
  show ?case
  proof (cases res)
    case (Inl e)
    with 2 have "row_document env t r = None" by simp
    with s Inl 1 show ?thesis by simp
  next
    case (Inr u)
    with 2 obtain d where d: "row_document env t r = Some d" by auto
    from Cons.IH [of w1] s Inr 1 d show ?thesis
      by (simp split: prod.splits)
  qed
qed

lemma embedTable_plan:
  assumes "deterministic_api env"
  shows "documents (fst (embedTable env t w)) = fold upsert (fst (table_documents env t)) (documents w)
       \<and> (isl (snd (embedTable env t w)) \<longleftrightarrow> \<not> snd (table_documents env t))"
  using embedRows_plan [OF assms]
  by (simp add: embedTable_def table_documents_def split: sum.splits)

lemma embedTables_plan:
  assumes "deterministic_api env"
  shows "documents (fst (embedTables env ts w)) = fold upsert (fst (tables_documents env ts)) (documents w)"
proof (induction ts arbitrary: w)
  case Nil
  show ?case by simp
next
  case (Cons t ts)
  obtain w1 res where s: "embedTable env t w = (w1, res)" by (cases "embedTable env t w")
  obtain ds ok where p: "table_documents env t = (ds, ok)" by (cases "table_documents env t")
  from embedTable_plan [OF assms, of t w] s p
  have 1: "documents w1 = fold upsert ds (documents w)" and 2: "isl res \<longleftrightarrow> \<not> ok" by simp_all
  show ?case
  proof (cases res)
    case (Inl e)
    with 2 have "\<not> ok" by simp
    with s p Inl 1 show ?thesis by simp
  next
    case (Inr u)
    with 2 have ok by simp
    with Cons.IH [of w1] s p Inr 1 show ?thesis
      by (simp split: prod.splits)
  qed
qed

lemma keys_upsert:
  "map doc_key (upsert d ds) =
     (if doc_key d \<in> set (map doc_key ds) then map doc_key ds else map doc_key ds @ [doc_key d])"
  by (induction ds) auto

lemma distinct_upsert: "distinct (map doc_key ds) \<Longrightarrow> distinct (map doc_key (upsert d ds))"
  by (simp add: keys_upsert)

lemma lookup_upsert:
  "lookup_doc (upsert d ds) k = (if k = doc_key d then Some d else lookup_doc ds k)"
  by (induction ds) (auto simp: lookup_doc_def)

lemma upsert_mem: "d \<in> set (upsert d ds)"
  by (induction ds) auto

lemma upsert_other_mem: "x \<in> set ds \<Longrightarrow> doc_key x \<noteq> doc_key d \<Longrightarrow> x \<in> set (upsert d ds)"
  by (induction ds) auto

lemma keys_fold_upsert:
  "set (map doc_key (fold upsert ds s)) = set (map doc_key s) \<union> set (map doc_key ds)"
proof (induction ds arbitrary: s)
  case Nil
  show ?case by simp
next
  case (Cons d ds)
  have "set (map doc_key (upsert d s)) = insert (doc_key d) (set (map doc_key s))"
    by (auto simp: keys_upsert)
  with Cons.IH [of "upsert d s"] show ?case by auto
qed

lemma keys_fold_upsert_present:
  "set (map doc_key ds) \<subseteq> set (map doc_key s) \<Longrightarrow> map doc_key (fold upsert ds s) = map doc_key s"
proof (induction ds arbitrary: s)
  case Nil
  show ?case by simp
next
  case (Cons d ds)
  then have k: "map doc_key (upsert d s) = map doc_key s"
    by (simp add: keys_upsert)
  with Cons.prems have "set (map doc_key ds) \<subseteq> set (map doc_key (upsert d s))" by simp
  from Cons.IH [OF this] k show ?case by simp
qed

lemma distinct_fold_upsert:
  "distinct (map doc_key s) \<Longrightarrow> distinct (map doc_key (fold upsert ds s))"
  by (induction ds arbitrary: s) (simp_all add: distinct_upsert)

lemma find_app:
  "find P (xs @ ys) = (case find P xs of None \<Rightarrow> find P ys | Some x \<Rightarrow> Some x)"
  by (induction xs) auto

lemma lookup_doc_absent: "k \<notin> set (map doc_key ds) \<Longrightarrow> lookup_doc ds k = None"
  by (auto simp: lookup_doc_def find_None_iff)

lemma lookup_fold_upsert:
  "lookup_doc (fold upsert ds s) k =
     (case lookup_doc (rev ds) k of None \<Rightarrow> lookup_doc s k | Some d \<Rightarrow> Some d)"
proof (induction ds arbitrary: s)
  case Nil
  show ?case by (simp add: lookup_doc_def)
next
  case (Cons d ds)
  have "lookup_doc (rev (d # ds)) k =
          (case lookup_doc (rev ds) k of None \<Rightarrow> (if k = doc_key d then Some d else None)
           | Some x \<Rightarrow> Some x)"
    by (auto simp: lookup_doc_def find_app split: option.splits)
  with Cons.IH [of "upsert d s"] show ?case
    by (simp add: lookup_upsert split: option.splits)
qed

lemma documents_eqI:
  assumes "distinct (map doc_key xs)" and "map doc_key xs = map doc_key ys"
    and "\<And>k. lookup_doc xs k = lookup_doc ys k"
  shows "xs = ys"
  using assms
proof (induction xs arbitrary: ys)
  case Nil
  then show ?case by simp
next
  case (Cons x xs)
  from Cons.prems(2) obtain y ys' where ys: "ys = y # ys'"
    and k: "doc_key x = doc_key y" and ks: "map doc_key xs = map doc_key ys'"
    by (cases ys) auto
  from Cons.prems(3) [of "doc_key x"] ys k have xy: "x = y"
    by (simp add: lookup_doc_def)
  have "lookup_doc xs j = lookup_doc ys' j" for j
  proof (cases "j = doc_key x")
    case True
    from Cons.prems(1) have "doc_key x \<notin> set (map doc_key xs)" by simp
    moreover from this ks have "doc_key x \<notin> set (map doc_key ys')" by simp
    ultimately have "lookup_doc xs (doc_key x) = None" and "lookup_doc ys' (doc_key x) = None"
      by (simp_all add: lookup_doc_absent)
    with True show ?thesis by simp
  next
    case False
    with Cons.prems(3) [of j] ys k show ?thesis
      by (auto simp: lookup_doc_def)
  qed
  with Cons.IH [of ys'] Cons.prems(1) ks have "xs = ys'" by simp
  with xy ys show ?case by simp
qed

lemma fold_upsert_idem:
  assumes "distinct (map doc_key s)"
  shows "fold upsert ds (fold upsert ds s) = fold upsert ds s"
proof (rule documents_eqI)
  show "distinct (map doc_key (fold upsert ds (fold upsert ds s)))"
    using assms by (simp add: distinct_fold_upsert)
  have "set (map doc_key ds) \<subseteq> set (map doc_key (fold upsert ds s))"
    using keys_fold_upsert [of ds s] by blast
  then show "map doc_key (fold upsert ds (fold upsert ds s)) = map doc_key (fold upsert ds s)"
    by (rule keys_fold_upsert_present)
  show "lookup_doc (fold upsert ds (fold upsert ds s)) k = lookup_doc (fold upsert ds s) k" for k
    by (simp add: lookup_fold_upsert split: option.splits)
qed

lemma run_idempotent:
  assumes "deterministic_api env" and "distinct (map doc_key (documents w))"
  shows "documents (fst (run env (fst (run env w)))) = documents (fst (run env w))"
  using assms by (simp add: run_def embedTables_plan fold_upsert_idem)

subsection \<open>What a successful run leaves under the key of a row\<close>

lemma embedRow_success:
  assumes "embedRow env t r w = (w', Inr u)"
  shows "\<exists>d. produced env t r d \<and> documents w' = upsert d (documents w)"
proof -
  from assms obtain c emb where c: "serialize (accounts_single env) t r = Inr c"
    and e: "embeddings_create env (api_calls w) c = Inr emb"
    and w': "documents w' = upsert (mk_document t r c emb) (documents w)"
    by (auto simp: embedRow_def makeEmbedding_def mk_document_def Let_def
             split: sum.splits option.splits)
  from c e have "produced env t r (mk_document t r c emb)"
    unfolding produced_def by blast
  with w' show ?thesis by blast
qed

lemma embedRow_failure:
  assumes "embedRow env t r w = (w', Inl e)"
  shows "documents w' = documents w"
  using assms
  by (auto simp: embedRow_def makeEmbedding_def Let_def split: sum.splits option.splits)

lemma produced_key: "produced env t r d \<Longrightarrow> doc_key d = (t, get_prop r ''id'')"
  by (auto simp: produced_def mk_document_def doc_key_def)

lemma embedRow_distinct:
  assumes "distinct (map doc_key (documents w))"
  shows "distinct (map doc_key (documents (fst (embedRow env t r w))))"
proof (cases "embedRow env t r w")
  case (Pair w' res)
  show ?thesis
  proof (cases res)
    case (Inl e)
    with Pair embedRow_failure [of env t r w w' e] assms show ?thesis by simp
  next
    case (Inr u)
    with Pair embedRow_success [of env t r w w' u] assms show ?thesis
      by (auto simp: distinct_upsert)
  qed
qed

lemma embedRows_distinct:
  "distinct (map doc_key (documents w)) \<Longrightarrow>
   distinct (map doc_key (documents (fst (embedRows env t rs w))))"
proof (induction rs arbitrary: w)
  case Nil
  then show ?case by simp
next
  case (Cons r rs)
  from embedRow_distinct [OF Cons.prems, of env t r]
  show ?case
    by (auto split: prod.splits sum.splits dest: Cons.IH)
qed

lemma embedTable_distinct:
  "distinct (map doc_key (documents w)) \<Longrightarrow>
   distinct (map doc_key (documents (fst (embedTable env t w))))"
  by (simp add: embedTable_def embedRows_distinct split: sum.splits)

lemma embedTables_distinct:
  "distinct (map doc_key (documents w)) \<Longrightarrow>
   distinct (map doc_key (documents (fst (embedTables env ts w))))"
proof (induction ts arbitrary: w)
  case Nil
  then show ?case by simp
next
  case (Cons t ts)
  from embedTable_distinct [OF Cons.prems, of env t]
  show ?case
    by (auto split: prod.splits sum.splits dest: Cons.IH)
qed

lemma embedRow_holds:
  assumes step: "embedRow env t r w = (w', Inr u)"
    and rows: "select_all env t = Inr rows" "r \<in> set rows"
    and before: "holds_row env t0 i0 (documents w) \<or> (t0 = t \<and> i0 = get_prop r ''id'')"
  shows "holds_row env t0 i0 (documents w')"
proof -
  from embedRow_success [OF step] obtain d
    where d: "produced env t r d" and w': "documents w' = upsert d (documents w)" by blast
  from d have key: "doc_key d = (t, get_prop r ''id'')" by (rule produced_key)
  show ?thesis
  proof (cases "t0 = t \<and> i0 = get_prop r ''id''")
    case True
    with d key rows w' upsert_mem [of d "documents w"] show ?thesis
      unfolding holds_row_def by auto
  next
    case False
    with before have "holds_row env t0 i0 (documents w)" by simp
    then obtain x where x: "x \<in> set (documents w)" "doc_key x = (t0, i0)"
      and px: "\<exists>rows r. select_all env t0 = Inr rows \<and> r \<in> set rows \<and> get_prop r ''id'' = i0 \<and>
                 produced env t0 r x"
      unfolding holds_row_def by blast
    from x False key have "doc_key x \<noteq> doc_key d" by auto
    with x have "x \<in> set (upsert d (documents w))" by (simp add: upsert_other_mem)
    with x px w' show ?thesis
      unfolding holds_row_def by auto
  qed
qed

lemma embedRows_holds:
  assumes rows: "select_all env t = Inr rows"
  shows "embedRows env t rs w = (w', Inr u) \<Longrightarrow> set rs \<subseteq> set rows \<Longrightarrow>
         holds_row env t0 i0 (documents w) \<or> (t0 = t \<and> i0 \<in> (\<lambda>r. get_prop r ''id'') ` set rs) \<Longrightarrow>
         holds_row env t0 i0 (documents w')"
proof (induction rs arbitrary: w)
  case Nil
  then show ?case by simp
next
  case (Cons r rs)
  from Cons.prems(1) obtain w1 u1 where s: "embedRow env t r w = (w1, Inr u1)"
    and rest: "embedRows env t rs w1 = (w', Inr u)"
    by (auto split: prod.splits sum.splits)
  from Cons.prems(2) have r: "r \<in> set rows" and sub: "set rs \<subseteq> set rows" by simp_all
  from Cons.prems(3)
  have "holds_row env t0 i0 (documents w1) \<or> (t0 = t \<and> i0 \<in> (\<lambda>r. get_prop r ''id'') ` set rs)"
    using embedRow_holds [OF s rows r, of t0 i0] by auto
  with Cons.IH [OF rest sub] show ?case by blast
qed

lemma embedTables_holds:
  "embedTables env ts w = (w', Inr u) \<Longrightarrow>
   holds_row env t0 i0 (documents w) \<or>
     (t0 \<in> set ts \<and> (\<exists>rows. select_all env t0 = Inr rows \<and> i0 \<in> (\<lambda>r. get_prop r ''id'') ` set rows)) \<Longrightarrow>
   holds_row env t0 i0 (documents w')"
proof (induction ts arbitrary: w)
  case Nil
  then show ?case by simp
next
  case (Cons t ts)
  from Cons.prems(1) obtain w1 u1 where s: "embedTable env t w = (w1, Inr u1)"
    and rest: "embedTables env ts w1 = (w', Inr u)"
    by (auto split: prod.splits sum.splits)
  from s obtain rows where rows: "select_all env t = Inr rows"
    and rs: "embedRows env t rows w = (w1, Inr u1)"
    by (auto simp: embedTable_def split: sum.splits)
  have "holds_row env t0 i0 (documents w1) \<or>
     (t0 \<in> set ts \<and> (\<exists>rows. select_all env t0 = Inr rows \<and> i0 \<in> (\<lambda>r. get_prop r ''id'') ` set rows))"
  proof (cases "holds_row env t0 i0 (documents w) \<or> (t0 = t \<and> i0 \<in> (\<lambda>r. get_prop r ''id'') ` set rows)")
    case True
    from embedRows_holds [OF rows rs _ True] show ?thesis by simp
  next
    case False
    with Cons.prems(2) rows show ?thesis by auto
  qed
  with Cons.IH [OF rest] show ?case by blast
qed

lemma filter_key_single:
  "distinct (map f xs) \<Longrightarrow> x \<in> set xs \<Longrightarrow> filter (\<lambda>y. f y = f x) xs = [x]"
proof (induction xs)
  case Nil
  then show ?case by simp
next
  case (Cons a xs)
  show ?case
  proof (cases "a = x")
    case True
    from Cons.prems(1) have "f a \<notin> f ` set xs" by simp
    then have "\<forall>y \<in> set xs. f y \<noteq> f a" by (auto simp: image_iff)
    then have "filter (\<lambda>y. f y = f a) xs = []" by (simp add: filter_empty_conv)
    with True show ?thesis by simp
  next
    case False
    with Cons.prems have "x \<in> set xs" "f a \<noteq> f x" by auto
    with Cons.IH Cons.prems(1) show ?thesis by simp
  qed
qed

subsection \<open>Two runs over the same rows\<close>

lemma produced_sketch: "produced env t r d \<Longrightarrow> sketch d = row_sketch env t r"
  by (auto simp: produced_def sketch_def row_sketch_def mk_document_def doc_key_def)

lemma embedRows_sketch:
  "embedRows env t rs w = (w', Inr u) \<Longrightarrow>
   \<exists>ds. documents w' = fold upsert ds (documents w) \<and> map sketch ds = map (row_sketch env t) rs"
proof (induction rs arbitrary: w)
  case Nil
  then show ?case by simp
next
  case (Cons r rs)
  from Cons.prems obtain w1 u1 where s: "embedRow env t r w = (w1, Inr u1)"
    and rest: "embedRows env t rs w1 = (w', Inr u)"
    by (auto split: prod.splits sum.splits)
  from embedRow_success [OF s] obtain d
    where d: "produced env t r d" and w1: "documents w1 = upsert d (documents w)" by blast
  from Cons.IH [OF rest] obtain ds
    where ds: "documents w' = fold upsert ds (documents w1)" "map sketch ds = map (row_sketch env t) rs"
    by blast
  from ds w1 produced_sketch [OF d]
  have "documents w' = fold upsert (d # ds) (documents w) \<and>
        map sketch (d # ds) = map (row_sketch env t) (r # rs)" by simp
  then show ?case by blast
qed

lemma embedTables_sketch:
  "embedTables env ts w = (w', Inr u) \<Longrightarrow>
   \<exists>ds. documents w' = fold upsert ds (documents w) \<and>
        map sketch ds = concat (map (table_sketch env) ts)"
proof (induction ts arbitrary: w)
  case Nil
  then show ?case by simp
next
  case (Cons t ts)
  from Cons.prems obtain w1 u1 where s: "embedTable env t w = (w1, Inr u1)"
    and rest: "embedTables env ts w1 = (w', Inr u)"
    by (auto split: prod.splits sum.splits)
  from s obtain rows where rows: "select_all env t = Inr rows"
    and rs: "embedRows env t rows w = (w1, Inr u1)"
    by (auto simp: embedTable_def split: sum.splits)
  from embedRows_sketch [OF rs] obtain ds1
    where ds1: "documents w1 = fold upsert ds1 (documents w)" "map sketch ds1 = map (row_sketch env t) rows"
    by blast
  from Cons.IH [OF rest] obtain ds2
    where ds2: "documents w' = fold upsert ds2 (documents w1)"
      "map sketch ds2 = concat (map (table_sketch env) ts)"
    by blast
  from ds1 ds2 rows
  have "documents w' = fold upsert (ds1 @ ds2) (documents w) \<and>
        map sketch (ds1 @ ds2) = concat (map (table_sketch env) (t # ts))"
    by (simp add: table_sketch_def)
  then show ?case by blast
qed

lemma sketch_key: "map sketch xs = map sketch ys \<Longrightarrow> map doc_key xs = map doc_key ys"
proof -
  assume "map sketch xs = map sketch ys"
  then have "map (fst \<circ> sketch) xs = map (fst \<circ> sketch) ys"
    by (metis map_map)
  moreover have "fst \<circ> sketch = doc_key" by (auto simp: sketch_def)
  ultimately show ?thesis by simp
qed

lemma lookup_sketch:
  "map sketch xs = map sketch ys \<Longrightarrow>
   map_option sketch (lookup_doc xs k) = map_option sketch (lookup_doc ys k)"
proof (induction xs arbitrary: ys)
  case Nil
  then show ?case by (simp add: lookup_doc_def)
next
  case (Cons x xs)
  then obtain y ys' where ys: "ys = y # ys'" and xy: "sketch x = sketch y"
    and rest: "map sketch xs = map sketch ys'"
    by (cases ys) auto
  from xy have "doc_key x = doc_key y" by (simp add: sketch_def)
  with Cons.IH [OF rest] xy ys show ?case
    by (simp add: lookup_doc_def)
qed

lemma sketch_eqI:
  assumes "distinct (map doc_key xs)" and "map doc_key xs = map doc_key ys"
    and "\<And>k. map_option sketch (lookup_doc xs k) = map_option sketch (lookup_doc ys k)"
  shows "map sketch xs = map sketch ys"
  using assms
proof (induction xs arbitrary: ys)
  case Nil
  then show ?case by simp
next
  case (Cons x xs)
  from Cons.prems(2) obtain y ys' where ys: "ys = y # ys'"
    and k: "doc_key x = doc_key y" and ks: "map doc_key xs = map doc_key ys'"
    by (cases ys) auto
  from Cons.prems(3) [of "doc_key x"] ys k have xy: "sketch x = sketch y"
    by (simp add: lookup_doc_def)
  have "map_option sketch (lookup_doc xs j) = map_option sketch (lookup_doc ys' j)" for j
  proof (cases "j = doc_key x")
    case True
    from Cons.prems(1) have "doc_key x \<notin> set (map doc_key xs)" by simp
    moreover from this ks have "doc_key x \<notin> set (map doc_key ys')" by simp
    ultimately have "lookup_doc xs (doc_key x) = None" and "lookup_doc ys' (doc_key x) = None"
      by (simp_all add: lookup_doc_absent)
    with True show ?thesis by simp
  next
    case False
    with Cons.prems(3) [of j] ys k show ?thesis
      by (auto simp: lookup_doc_def)
  qed
  with Cons.IH [of ys'] Cons.prems(1) ks have "map sketch xs = map sketch ys'" by simp
  with xy ys show ?case by simp
qed

lemma fold_upsert_sketch_idem:
  assumes "distinct (map doc_key s)" and same: "map sketch ds' = map sketch ds"
  shows "map sketch (fold upsert ds' (fold upsert ds s)) = map sketch (fold upsert ds s)"
proof (rule sketch_eqI)
  show "distinct (map doc_key (fold upsert ds' (fold upsert ds s)))"
    using assms(1) by (simp add: distinct_fold_upsert)
  have "set (map doc_key ds') \<subseteq> set (map doc_key (fold upsert ds s))"
    using keys_fold_upsert [of ds s] sketch_key [OF same] by auto
  then show "map doc_key (fold upsert ds' (fold upsert ds s)) = map doc_key (fold upsert ds s)"
    by (rule keys_fold_upsert_present)
  have "map sketch (rev ds') = map sketch (rev ds)"
    using same by (simp add: rev_map [symmetric])
  from lookup_sketch [OF this]
  show "map_option sketch (lookup_doc (fold upsert ds' (fold upsert ds s)) k) =
        map_option sketch (lookup_doc (fold upsert ds s) k)" for k
    by (simp add: lookup_fold_upsert split: option.splits) (metis option.distinct(1) option.map_disc_iff option.sel option.simps(9))
qed

lemma run_twice_sketch:
  assumes "distinct (map doc_key (documents w))"
    and "run env w = (w1, Inr ())" and "run env w1 = (w2, Inr ())"
  shows "map sketch (documents w2) = map sketch (documents w1)"
proof -
  from assms(2) embedTables_sketch [of env TABLES_TO_EMBED w w1 "()"] obtain ds
    where ds: "documents w1 = fold upsert ds (documents w)"
      "map sketch ds = concat (map (table_sketch env) TABLES_TO_EMBED)"
    by (auto simp: run_def)
  from assms(3) embedTables_sketch [of env TABLES_TO_EMBED w1 w2 "()"] obtain ds'
    where ds': "documents w2 = fold upsert ds' (documents w1)"
      "map sketch ds' = concat (map (table_sketch env) TABLES_TO_EMBED)"
    by (auto simp: run_def)
  from ds ds' fold_upsert_sketch_idem [OF assms(1), of ds' ds] show ?thesis by simp
qed

lemma serialize_a2: "serialize (accounts_single env) ''accounts'' account_a2 = Inr fact_a2"
  by (simp add: serialize_def toUpperCase_def upper_char_def json_quote_def json_escape_char_def
        dq_def account_a2_def fact_a2_def)

lemma serialize_a1_renamed:
  "serialize (accounts_single env) ''accounts'' account_a1_renamed = Inr fact_a1_renamed"
  by (simp add: serialize_def toUpperCase_def upper_char_def json_quote_def json_escape_char_def
        dq_def account_a1_renamed_def fact_a1_renamed_def)

lemma ids: "get_prop account_a1 ''id'' = Some (JStr ''a1'')" "get_prop account_a2 ''id'' = Some (JStr ''a2'')"
  "get_prop account_a1_renamed ''id'' = Some (JStr ''a1'')"
  "get_prop account_a1 ''user_id'' = Some (JStr ''u1'')" "get_prop account_a2 ''user_id'' = Some (JStr ''u1'')"
  "get_prop account_a1_renamed ''user_id'' = Some (JStr ''u1'')"
  by (simp_all add: get_prop_def account_a1_def account_a2_def account_a1_renamed_def)

lemma drifting_env_simps:
  "select_all drifting_env t = (if t = ''accounts'' then Inr [account_a1, account_a2] else Inr [])"
  "embeddings_create drifting_env n text = Inr [of_nat n]"
  "upsert_error drifting_env d = None"
  by (simp_all add: drifting_env_def embeddings_create_def MAX_RETRIES_def numeral_2_eq_2)

lemma run_drifting:
  "run drifting_env \<lparr>documents = ds, api_calls = n\<rparr> =
     (\<lparr>documents = upsert (doc_a2\<lparr>embedding := [of_nat (Suc n)]\<rparr>)
                     (upsert (doc_a1\<lparr>embedding := [of_nat n]\<rparr>) ds),
       api_calls = Suc (Suc n)\<rparr>, Inr ())"
  by (simp add: run_def TABLES_TO_EMBED_def embedTable_def drifting_env_simps embedRow_def
        serialize_a1 serialize_a2 makeEmbedding_def ids doc_a1_def doc_a2_def)

text \<open>
  C2, as the code has it. The claim that a second run over unchanged rows leaves the
  embeddings unchanged fails: every row is embedded again and overwritten, so with an
  endpoint whose vector depends on the call the two runs succeed and the embeddings of
  both documents differ after the second.
\<close>

theorem indexer_embedding_changes_counterexample:
  "snd (run drifting_env empty_world) = Inr () \<and>
   snd (run drifting_env (fst (run drifting_env empty_world))) = Inr () \<and>
   map embedding (documents (fst (run drifting_env empty_world))) = [[0], [1]] \<and>
   map embedding (documents (fst (run drifting_env (fst (run drifting_env empty_world))))) = [[2], [3]]"
  by (simp add: empty_world_def run_drifting doc_key_def doc_a1_def doc_a2_def)

text \<open>
  C2, amended. Let the \<^verbatim>\<open>documents\<close> table start with one document per key. When
  two runs over the same rows both succeed, the second leaves the keys, the owners, the
  contents and the count of the documents as the first left them; and when the
  embeddings client answers a text the same at every call, the second run leaves the
  table exactly as the first left it, embeddings included. After any run there is one
  document per \<^verbatim>\<open>(source_table, source_id)\<close>. A later run over changed rows keeps one
  document per key, and when it succeeds, for a table whose rows have distinct ids, the
  one document under the key of a row holds the fact of that row as it is now and an
  embedding the client gave for that fact.
\<close>

theorem indexer_idempotent_upsert:
  assumes uniq: "distinct (map doc_key (documents w))"
  shows "(snd (run env w) = Inr () \<and> snd (run env (fst (run env w))) = Inr () \<longrightarrow>
            map doc_key (documents (fst (run env (fst (run env w))))) =
              map doc_key (documents (fst (run env w))) \<and>
            map user_id (documents (fst (run env (fst (run env w))))) =
              map user_id (documents (fst (run env w))) \<and>
            map content (documents (fst (run env (fst (run env w))))) =
              map content (documents (fst (run env w))) \<and>
            length (documents (fst (run env (fst (run env w))))) =
              length (documents (fst (run env w)))) \<and>
         ((\<forall>n text. embeddings_create env n text = embeddings_create env 0 text) \<longrightarrow>
            documents (fst (run env (fst (run env w)))) = documents (fst (run env w))) \<and>
         distinct (map doc_key (documents (fst (run env w)))) \<and>
         distinct (map doc_key (documents (fst (run env' (fst (run env w)))))) \<and>
         (snd (run env' (fst (run env w))) = Inr () \<and> table \<in> set TABLES_TO_EMBED \<and>
          select_all env' table = Inr rows \<and> distinct (map (\<lambda>r. get_prop r ''id'') rows) \<and>
          r \<in> set rows \<longrightarrow>
            (\<exists>txt n emb.
               serialize (accounts_single env') table r = Inr txt \<and>
               embeddings_create env' n txt = Inr emb \<and>
               filter (\<lambda>d. doc_key d = (table, get_prop r ''id''))
                 (documents (fst (run env' (fst (run env w))))) =
               [\<lparr>user_id = get_prop r ''user_id'', source_table = table,
                 source_id = get_prop r ''id'', content = txt, embedding = emb\<rparr>]))"
proof (intro conjI impI)
  let ?w1 = "fst (run env w)"
  let ?w2 = "fst (run env' ?w1)"
  let ?v2 = "fst (run env ?w1)"
  {
    assume ok: "snd (run env w) = Inr () \<and> snd (run env (fst (run env w))) = Inr ()"
    then have "run env w = (?w1, Inr ())" and "run env ?w1 = (?v2, Inr ())"
      by (simp_all add: prod_eq_iff)
    with uniq have sk: "map sketch (documents ?v2) = map sketch (documents ?w1)"
      by (rule run_twice_sketch)
    then have "map (fst \<circ> sketch) (documents ?v2) = map (fst \<circ> sketch) (documents ?w1)"
      and "map (fst \<circ> snd \<circ> sketch) (documents ?v2) = map (fst \<circ> snd \<circ> sketch) (documents ?w1)"
      and "map (snd \<circ> snd \<circ> sketch) (documents ?v2) = map (snd \<circ> snd \<circ> sketch) (documents ?w1)"
      by (metis map_map)+
    moreover have "fst \<circ> sketch = doc_key" "fst \<circ> snd \<circ> sketch = user_id"
      "snd \<circ> snd \<circ> sketch = content"
      by (auto simp: sketch_def)
    ultimately show "map doc_key (documents ?v2) = map doc_key (documents ?w1)"
      and "map user_id (documents ?v2) = map user_id (documents ?w1)"
      and "map content (documents ?v2) = map content (documents ?w1)"
      by simp_all
    from sk have "length (map sketch (documents ?v2)) = length (map sketch (documents ?w1))"
      by simp
    then show "length (documents ?v2) = length (documents ?w1)" by simp
  }
  show "documents ?v2 = documents ?w1"
    if "\<forall>n text. embeddings_create env n text = embeddings_create env 0 text"
  proof -
    from that have "deterministic_api env" by (simp add: deterministic_api_def)
    then show ?thesis using uniq by (rule run_idempotent)
  qed
  show u1: "distinct (map doc_key (documents ?w1))"
    using uniq by (simp add: run_def embedTables_distinct)
  then show u2: "distinct (map doc_key (documents ?w2))"
    by (simp add: run_def embedTables_distinct)
  assume a: "snd (run env' (fst (run env w))) = Inr () \<and> table \<in> set TABLES_TO_EMBED \<and>
          select_all env' table = Inr rows \<and> distinct (map (\<lambda>r. get_prop r ''id'') rows) \<and>
          r \<in> set rows"
  from a have "embedTables env' TABLES_TO_EMBED ?w1 = (?w2, Inr ())"
    by (simp add: run_def prod_eq_iff)
  from embedTables_holds [OF this, of table "get_prop r ''id''"] a
  have "holds_row env' table (get_prop r ''id'') (documents ?w2)" by auto
  then obtain x r' where x: "x \<in> set (documents ?w2)" "doc_key x = (table, get_prop r ''id'')"
    and r': "r' \<in> set rows" "get_prop r' ''id'' = get_prop r ''id''" "produced env' table r' x"
    using a unfolding holds_row_def by auto
  from a r'(1,2) have "r' = r"
    by (auto simp: distinct_map dest: inj_onD)
  with r'(3) obtain c n emb where p: "serialize (accounts_single env') table r = Inr c"
    "embeddings_create env' n c = Inr emb" "x = mk_document table r c emb"
    unfolding produced_def by blast
  from filter_key_single [OF u2 x(1)] x(2)
  have "filter (\<lambda>d. doc_key d = (table, get_prop r ''id'')) (documents ?w2) = [x]" by simp
  with p show "\<exists>txt n emb.
               serialize (accounts_single env') table r = Inr txt \<and>
               embeddings_create env' n txt = Inr emb \<and>
               filter (\<lambda>d. doc_key d = (table, get_prop r ''id''))
                 (documents (fst (run env' (fst (run env w))))) =
               [\<lparr>user_id = get_prop r ''user_id'', source_table = table,
                 source_id = get_prop r ''id'', content = txt, embedding = emb\<rparr>]"
    unfolding mk_document_def by blast
qed

lemma steady_env_simps:
  "select_all steady_env t = (if t = ''accounts'' then Inr [account_a1, account_a2] else Inr [])"
  "embeddings_create steady_env n text = Inr [of_nat (length text)]"
  "upsert_error steady_env d = None"
  by (simp_all add: steady_env_def embeddings_create_def MAX_RETRIES_def numeral_2_eq_2)

lemma renamed_env_simps:
  "select_all renamed_env t = (if t = ''accounts'' then Inr [account_a1_renamed, account_a2] else Inr [])"
  "embeddings_create renamed_env n text = Inr [of_nat (length text)]"
  "upsert_error renamed_env d = None"
  by (simp_all add: renamed_env_def embeddings_create_def MAX_RETRIES_def numeral_2_eq_2)

lemma run_steady:
  "run steady_env \<lparr>documents = ds, api_calls = n\<rparr> =
     (\<lparr>documents = upsert doc_a2 (upsert doc_a1 ds), api_calls = Suc (Suc n)\<rparr>, Inr ())"
  by (simp add: run_def TABLES_TO_EMBED_def embedTable_def steady_env_simps embedRow_def
        serialize_a1 serialize_a2 makeEmbedding_def ids doc_a1_def doc_a2_def)

lemma run_renamed:
  "run renamed_env \<lparr>documents = ds, api_calls = n\<rparr> =
     (\<lparr>documents = upsert doc_a2 (upsert doc_a1_renamed ds), api_calls = Suc (Suc n)\<rparr>, Inr ())"
  by (simp add: run_def TABLES_TO_EMBED_def embedTable_def renamed_env_simps embedRow_def
        serialize_a1_renamed serialize_a2 makeEmbedding_def ids doc_a1_renamed_def doc_a2_def)

lemma keys_demo:
  "doc_key doc_a1 = (''accounts'', Some (JStr ''a1''))"
  "doc_key doc_a2 = (''accounts'', Some (JStr ''a2''))"
  "doc_key doc_a1_renamed = (''accounts'', Some (JStr ''a1''))"
  by (simp_all add: doc_key_def doc_a1_def doc_a2_def doc_a1_renamed_def)

theorem indexer_idempotent_upsert_witness:
  "map doc_key (documents (fst (run steady_env (fst (run steady_env empty_world))))) =
     [(''accounts'', Some (JStr ''a1'')), (''accounts'', Some (JStr ''a2''))] \<and>
   map content (documents (fst (run steady_env (fst (run steady_env empty_world))))) =
     [fact_a1, fact_a2] \<and>
   documents (fst (run steady_env (fst (run steady_env empty_world)))) = [doc_a1, doc_a2] \<and>
   documents (fst (run steady_env empty_world)) = [doc_a1, doc_a2] \<and>
   filter (\<lambda>d. doc_key d = (''accounts'', Some (JStr ''a1'')))
     (documents (fst (run renamed_env (fst (run steady_env empty_world))))) = [doc_a1_renamed] \<and>
   length (documents (fst (run renamed_env (fst (run steady_env empty_world))))) = 2"
proof -
  have det: "\<forall>n text. embeddings_create steady_env n text = embeddings_create steady_env 0 text"
    by (simp add: steady_env_simps)
  have uniq: "distinct (map doc_key (documents empty_world))"
    by (simp add: empty_world_def)
  have r1: "fst (run steady_env empty_world) = \<lparr>documents = [doc_a1, doc_a2], api_calls = 2\<rparr>"
    by (simp add: empty_world_def run_steady keys_demo)
  have r2: "run renamed_env \<lparr>documents = [doc_a1, doc_a2], api_calls = 2\<rparr> =
              (\<lparr>documents = [doc_a1_renamed, doc_a2], api_calls = 4\<rparr>, Inr ())"
    by (simp add: run_renamed keys_demo)
  have ok: "snd (run steady_env empty_world) = Inr () \<and>
            snd (run steady_env (fst (run steady_env empty_world))) = Inr ()"
    by (simp add: r1 run_steady) (simp add: empty_world_def run_steady)
  have pre: "snd (run renamed_env (fst (run steady_env empty_world))) = Inr () \<and>
             ''accounts'' \<in> set TABLES_TO_EMBED \<and>
             select_all renamed_env ''accounts'' = Inr [account_a1_renamed, account_a2] \<and>
             distinct (map (\<lambda>r. get_prop r ''id'') [account_a1_renamed, account_a2]) \<and>
             account_a1_renamed \<in> set [account_a1_renamed, account_a2]"
    by (simp add: r1 r2 TABLES_TO_EMBED_def renamed_env_simps ids)
  from indexer_idempotent_upsert [OF uniq, of steady_env renamed_env "''accounts''"
         "[account_a1_renamed, account_a2]" account_a1_renamed] ok det pre
  have k: "map doc_key (documents (fst (run steady_env (fst (run steady_env empty_world))))) =
           map doc_key (documents (fst (run steady_env empty_world)))"
    and t: "map content (documents (fst (run steady_env (fst (run steady_env empty_world))))) =
           map content (documents (fst (run steady_env empty_world)))"
    and a: "documents (fst (run steady_env (fst (run steady_env empty_world)))) =
           documents (fst (run steady_env empty_world))"
    and b: "\<exists>txt n emb.
               serialize (accounts_single renamed_env) ''accounts'' account_a1_renamed = Inr txt \<and>
               embeddings_create renamed_env n txt = Inr emb \<and>
               filter (\<lambda>d. doc_key d = (''accounts'', get_prop account_a1_renamed ''id''))
                 (documents (fst (run renamed_env (fst (run steady_env empty_world))))) =
               [\<lparr>user_id = get_prop account_a1_renamed ''user_id'', source_table = ''accounts'',
                 source_id = get_prop account_a1_renamed ''id'', content = txt, embedding = emb\<rparr>]"
    by blast+
  from b have c: "filter (\<lambda>d. doc_key d = (''accounts'', Some (JStr ''a1'')))
     (documents (fst (run renamed_env (fst (run steady_env empty_world))))) = [doc_a1_renamed]"
    by (auto simp: serialize_a1_renamed renamed_env_simps ids doc_a1_renamed_def)
  from k t a c show ?thesis
    by (simp add: r1 r2 keys_demo) (simp add: doc_a1_def doc_a2_def)
qed

subsection \<open>Fail-fast\<close>

lemma embedRows_append:
  "embedRows env t (xs @ ys) w =
     (case embedRows env t xs w of
        (w1, Inl e) \<Rightarrow> (w1, Inl e)
      | (w1, Inr u) \<Rightarrow> embedRows env t ys w1)"
  by (induction xs arbitrary: w) (auto split: prod.splits sum.splits)

lemma embedTables_append:
  "embedTables env (xs @ ys) w =
     (case embedTables env xs w of
        (w1, Inl e) \<Rightarrow> (w1, Inl e)
      | (w1, Inr u) \<Rightarrow> embedTables env ys w1)"
  by (induction xs arbitrary: w) (auto split: prod.splits sum.splits)

text \<open>
  C7. Let the tables before \<open>t\<close> in the fixed table list and the rows before \<open>r\<close> in
  table \<open>t\<close> be processed without failure, and let the serializer or the embedder fail
  on \<open>r\<close>. Then the run fails with that error, the \<^verbatim>\<open>documents\<close> table is the one
  left by the rows before \<open>r\<close>, and at most the one embedding call for \<open>r\<close> was made
  after them: the rows after \<open>r\<close> and the tables after \<open>t\<close> play no part.
\<close>

theorem indexer_fail_fast:
  assumes tables: "TABLES_TO_EMBED = tpre @ t # tpost"
    and before: "embedTables env tpre w = (w0, Inr ())"
    and rows: "select_all env t = Inr (pre @ r # post)"
    and pre_ok: "embedRows env t pre w0 = (w1, Inr ())"
    and fails: "serialize (accounts_single env) t r = Inl e \<or>
                (\<exists>txt. serialize (accounts_single env) t r = Inr txt \<and>
                       embeddings_create env (api_calls w1) txt = Inl e)"
  shows "snd (run env w) = Inl e \<and>
         documents (fst (run env w)) = documents w1 \<and>
         api_calls (fst (run env w)) \<le> Suc (api_calls w1)"
proof -
  from fails obtain w2 where row: "embedRow env t r w1 = (w2, Inl e)"
    and w2: "documents w2 = documents w1" "api_calls w2 \<le> Suc (api_calls w1)"
    by (auto simp: embedRow_def makeEmbedding_def)
  from pre_ok row have "embedRows env t (pre @ r # post) w0 = (w2, Inl e)"
    by (simp add: embedRows_append)
  with rows have "embedTable env t w0 = (w2, Inl e)"
    by (simp add: embedTable_def)
  with before have "embedTables env (tpre @ t # tpost) w = (w2, Inl e)"
    by (simp add: embedTables_append)
  with tables have "run env w = (w2, Inl e)"
    by (simp add: run_def)
  with w2 show ?thesis by simp
qed

lemma halting_env_simps:
  "select_all halting_env ''profiles'' = Inr []"
  "select_all halting_env ''accounts'' = Inr ([account_a1] @ account_a2 # [account_a3])"
  "embeddings_create halting_env 0 text = Inr [of_nat (length text)]"
  "embeddings_create halting_env (Suc 0) text = Inl (ApiError ''500 server error'')"
  "upsert_error halting_env d = None"
  by (simp_all add: halting_env_def embeddings_create_def MAX_RETRIES_def numeral_2_eq_2)

theorem indexer_fail_fast_witness:
  "snd (run halting_env empty_world) = Inl (ApiError ''500 server error'') \<and>
   documents (fst (run halting_env empty_world)) = [doc_a1] \<and>
   api_calls (fst (run halting_env empty_world)) \<le> 2"
proof -
  have tables: "TABLES_TO_EMBED = [''profiles''] @ ''accounts'' #
      [''categories'', ''transactions'', ''budgets'', ''customers'', ''invoices'', ''vendors'',
       ''bills'', ''account_snapshots'', ''monthly_expense_snapshots'', ''financial_kb'']"
    by (simp add: TABLES_TO_EMBED_def)
  have before: "embedTables halting_env [''profiles''] empty_world = (empty_world, Inr ())"
    by (simp add: embedTable_def halting_env_simps)
  have pre_ok: "embedRows halting_env ''accounts'' [account_a1] empty_world =
                  (\<lparr>documents = [doc_a1], api_calls = 1\<rparr>, Inr ())"
    by (simp add: embedRow_def serialize_a1 makeEmbedding_def halting_env_simps ids doc_a1_def
          empty_world_def)
  have fails: "serialize (accounts_single halting_env) ''accounts'' account_a2 = Inl (ApiError ''500 server error'') \<or>
       (\<exists>txt. serialize (accounts_single halting_env) ''accounts'' account_a2 = Inr txt \<and>
              embeddings_create halting_env (api_calls \<lparr>documents = [doc_a1], api_calls = 1\<rparr>) txt =
                Inl (ApiError ''500 server error''))"
    by (simp add: serialize_a2 halting_env_simps)
  from indexer_fail_fast [OF tables before halting_env_simps(2) pre_ok fails]
  show ?thesis by simp
qed

end
